theory Spec2Isabelle
  imports Complex_Main
begin

section \<open>Data model\<close>

text \<open>
  The tables of the migration (\<^verbatim>\<open>CREATE TABLE farmers\<close> ... \<^verbatim>\<open>order_items\<close>) and the
  interfaces of \<^verbatim>\<open>src/lib/supabase.ts\<close>. A row is a record; the field names are the column
  names, prefixed by a letter for the table (\<open>f_\<close> farmers, \<open>c_\<close> customers, \<open>l_\<close>
  fish listings, \<open>o_\<close> orders, \<open>i_\<close> order items), since a field name is a constant
  of the theory and the tables share column names.

  A \<^verbatim>\<open>uuid\<close> is modelled by a natural number (the 128-bit value) and a
  \<^verbatim>\<open>timestamptz\<close> by a natural number (an instant).

  A value of a \<^verbatim>\<open>decimal(10,2)\<close> column (type \<open>numeric\<close>) is counted in hundredths: the
  integer \<open>h\<close> stands for \<open>h / 100\<close>, so that a stored amount has two decimals by its
  type. A TypeScript \<^verbatim>\<open>number\<close> that holds a price or an amount (type \<open>number\<close>) is a
  rational; every double is one. \<open>to_number\<close> reads a stored value into a
  \<^verbatim>\<open>number\<close>, and \<open>numeric_10_2\<close> below is the assignment of a \<^verbatim>\<open>number\<close> to such a
  column. A quantity is a whole \<^verbatim>\<open>number\<close>, assigned to an \<^verbatim>\<open>integer\<close> column by
  \<open>int4\<close>.
\<close>

type_synonym uuid = nat
type_synonym timestamptz = nat
type_synonym numeric = int
type_synonym number = rat

definition to_number :: "numeric \<Rightarrow> number" where
  "to_number h = of_int h / 100"

datatype fish_type = catfish | tilapia | dry_fish

datatype id_type = nin | company | passport

datatype order_status = pending | confirmed | shipped | delivered | cancelled

record farmer =
  f_id :: uuid
  f_full_name :: string
  f_company_name :: string
  f_phone :: string
  f_email :: string
  f_password_hash :: string
  f_country :: string
  f_state :: string
  f_local_government :: string
  f_city :: string
  f_street :: string
  f_business_cert_url :: "string option"
  f_id_card_url :: "string option"
  f_id_type :: id_type
  f_unique_code :: "string option"
  f_is_verified :: bool
  f_created_at :: timestamptz
  f_updated_at :: timestamptz

record customer =
  c_id :: uuid
  c_full_name :: string
  c_company_name :: string
  c_company_address :: string
  c_phone :: string
  c_email :: string
  c_password_hash :: string
  c_created_at :: timestamptz
  c_updated_at :: timestamptz

record fish_listing =
  l_id :: uuid
  l_farmer_id :: uuid
  l_fish_type :: fish_type
  l_quantity :: int
  l_price_per_unit :: numeric
  l_description :: string
  l_is_active :: bool
  l_created_at :: timestamptz
  l_updated_at :: timestamptz

record order =
  o_id :: uuid
  o_customer_id :: uuid
  o_farmer_id :: uuid
  o_farmer_code :: string
  o_total_amount :: numeric
  o_status :: order_status
  o_created_at :: timestamptz
  o_updated_at :: timestamptz

record order_item =
  i_id :: uuid
  i_order_id :: uuid
  i_fish_listing_id :: uuid
  i_quantity :: int
  i_unit_price :: numeric
  i_subtotal :: numeric
  i_created_at :: timestamptz

text \<open>
  The state of the store: the five tables in insertion order, the next value that
  \<^verbatim>\<open>gen_random_uuid()\<close> hands out as the default of an \<^verbatim>\<open>id\<close> column, and the instant
  that \<^verbatim>\<open>now()\<close> reads.
\<close>

record database =
  farmers :: "farmer list"
  customers :: "customer list"
  fish_listings :: "fish_listing list"
  orders :: "order list"
  order_items :: "order_item list"
  next_uuid :: uuid
  clock :: timestamptz

text \<open>
  The error object of a statement that the store rejects, with what its message and
  details name: the table of a refused policy check; the table, the constraint and the
  failing row of a \<^verbatim>\<open>CHECK\<close> or \<^verbatim>\<open>NOT NULL\<close> violation; the table, the constraint and
  the key of a unique or foreign-key violation (constraints carry the names that
  Postgres gives them); the value that does not fit an \<^verbatim>\<open>integer\<close>. \<open>NoSingleRow\<close> is
  the error of \<^verbatim>\<open>.single()\<close> when the statement returned no row.
\<close>

datatype key_value = KeyUuid uuid | KeyText string

datatype failing_row =
  FarmerRow farmer | ListingRow fish_listing | OrderRow order | ItemRow order_item

datatype pg_error =
  RlsViolation string
  | CheckViolation string string failing_row
  | NotNullViolation string string failing_row
  | UniqueViolation string string key_value
  | ForeignKeyViolation string string key_value
  | NumericOverflow
  | IntegerOutOfRange int
  | NoSingleRow

text \<open>
  Assignment to a column. A \<^verbatim>\<open>decimal(10,2)\<close> column rounds to two decimals, half away
  from zero, and refuses a value whose rounded magnitude reaches \<open>10^8\<close>; an
  \<^verbatim>\<open>integer\<close> column refuses a value outside 32 bits.
\<close>

definition round_half_away :: "rat \<Rightarrow> int" where
  "round_half_away x = (if 0 \<le> x then \<lfloor>x + 1 / 2\<rfloor> else - \<lfloor>- x + 1 / 2\<rfloor>)"

definition numeric_10_2 :: "number \<Rightarrow> pg_error + numeric" where
  "numeric_10_2 x =
     (let h = round_half_away (x * 100)
      in if 10 ^ 10 \<le> \<bar>h\<bar> then Inl NumericOverflow else Inr h)"

definition int4 :: "int \<Rightarrow> pg_error + int" where
  "int4 i = (if - (2 ^ 31) \<le> i \<and> i < 2 ^ 31 then Inr i else Inl (IntegerOutOfRange i))"

text \<open>
  What a function of \<^verbatim>\<open>supabase.ts\<close> throws: \<^verbatim>\<open>new Error(msg)\<close>, or the error
  object of a rejected statement.
\<close>

datatype exn = Error string | Rejected pg_error

section \<open>Row-level security\<close>

text \<open>
  Every policy of the migration is \<^verbatim>\<open>TO authenticated\<close>: without a user no policy
  applies and the row is denied. \<open>auth\<close> is the result of \<^verbatim>\<open>auth.uid()\<close>. The permissive
  policies of one table and command are joined by disjunction.
\<close>

definition farmers_select :: "uuid option \<Rightarrow> farmer \<Rightarrow> bool" where
  "farmers_select auth f =
     (case auth of None \<Rightarrow> False | Some uid \<Rightarrow> True \<or> uid = f_id f)"

definition farmers_insert_check :: "uuid option \<Rightarrow> farmer \<Rightarrow> bool" where
  "farmers_insert_check auth f =
     (case auth of None \<Rightarrow> False | Some uid \<Rightarrow> uid = f_id f)"

definition fish_listings_select :: "uuid option \<Rightarrow> fish_listing \<Rightarrow> bool" where
  "fish_listings_select auth l =
     (case auth of None \<Rightarrow> False
      | Some uid \<Rightarrow> l_is_active l = True \<or> l_farmer_id l = uid)"

definition fish_listings_manage :: "uuid option \<Rightarrow> fish_listing \<Rightarrow> bool" where
  "fish_listings_manage auth l =
     (case auth of None \<Rightarrow> False | Some uid \<Rightarrow> l_farmer_id l = uid)"

definition orders_select :: "uuid option \<Rightarrow> order \<Rightarrow> bool" where
  "orders_select auth o' =
     (case auth of None \<Rightarrow> False
      | Some uid \<Rightarrow> o_customer_id o' = uid \<or> o_farmer_id o' = uid)"

definition orders_insert_check :: "uuid option \<Rightarrow> order \<Rightarrow> bool" where
  "orders_insert_check auth o' =
     (case auth of None \<Rightarrow> False | Some uid \<Rightarrow> o_customer_id o' = uid)"

text \<open>
  The policy of \<^verbatim>\<open>order_items\<close> looks the parent order up; that sub-select reads
  \<^verbatim>\<open>orders\<close> under the policies of \<^verbatim>\<open>orders\<close>.
\<close>

definition order_items_insert_check :: "uuid option \<Rightarrow> database \<Rightarrow> order_item \<Rightarrow> bool" where
  "order_items_insert_check auth db it =
     (case auth of None \<Rightarrow> False
      | Some uid \<Rightarrow>
          list_ex (\<lambda>o'. o_id o' = i_order_id it \<and> o_customer_id o' = uid)
            (filter (orders_select auth) (orders db)))"

section \<open>Statements on the order tables\<close>

text \<open>
  \<^verbatim>\<open>INSERT INTO orders\<close> of one row, with the columns that \<^verbatim>\<open>createOrder\<close> supplies; the
  other columns take their defaults. The amount is assigned to its column first; then
  the row is refused by the \<^verbatim>\<open>WITH CHECK\<close> of the policy, by
  \<^verbatim>\<open>CHECK (total_amount > 0)\<close>, by the primary key, and at the end of the statement by
  the two foreign keys. A refused statement leaves the store as it was.
\<close>

definition insert_order ::
  "uuid option \<Rightarrow> uuid \<Rightarrow> uuid \<Rightarrow> string \<Rightarrow> number \<Rightarrow> database \<Rightarrow> (pg_error + order) \<times> database"
where
  "insert_order auth customer_id farmer_id farmer_code total_amount db =
     (case numeric_10_2 total_amount of
        Inl e \<Rightarrow> (Inl e, db)
      | Inr amount \<Rightarrow>
          (let row = \<lparr>o_id = next_uuid db, o_customer_id = customer_id,
                      o_farmer_id = farmer_id, o_farmer_code = farmer_code,
                      o_total_amount = amount, o_status = pending,
                      o_created_at = clock db, o_updated_at = clock db\<rparr>
           in if \<not> orders_insert_check auth row then (Inl (RlsViolation ''orders''), db)
              else if \<not> 0 < amount
                then (Inl (CheckViolation ''orders'' ''orders_total_amount_check''
                             (OrderRow row)), db)
              else if o_id row \<in> set (map o_id (orders db))
                then (Inl (UniqueViolation ''orders'' ''orders_pkey'' (KeyUuid (o_id row))), db)
              else if customer_id \<notin> set (map c_id (customers db))
                then (Inl (ForeignKeyViolation ''orders'' ''orders_customer_id_fkey''
                             (KeyUuid customer_id)), db)
              else if farmer_id \<notin> set (map f_id (farmers db))
                then (Inl (ForeignKeyViolation ''orders'' ''orders_farmer_id_fkey''
                             (KeyUuid farmer_id)), db)
              else (Inr row, db\<lparr>orders := orders db @ [row],
                                 next_uuid := Suc (next_uuid db)\<rparr>)))"

text \<open>
  The element type of \<^verbatim>\<open>orderData.items\<close>, and the row that \<^verbatim>\<open>createOrder\<close> builds from
  it: \<^verbatim>\<open>{ order_id: order.id, ...item }\<close>.
\<close>

record order_item_data =
  fish_listing_id :: uuid
  quantity :: int
  unit_price :: number
  subtotal :: number

record order_item_insert = order_item_data +
  order_id :: uuid

text \<open>
  \<^verbatim>\<open>INSERT INTO order_items\<close> of a list of rows in one statement. The rows are taken in
  order and get consecutive fresh ids. For each row, its values are assigned to the
  columns; then the row is refused by the \<^verbatim>\<open>WITH CHECK\<close> of the policy, by one of the
  three \<^verbatim>\<open>CHECK\<close> constraints or by the primary key. The two foreign keys are checked
  at the end of the statement, row by row. The first refusal fails the whole statement,
  which then writes nothing.
\<close>

definition order_item_row ::
  "uuid \<Rightarrow> timestamptz \<Rightarrow> order_item_insert \<Rightarrow> pg_error + order_item"
where
  "order_item_row new_id t r =
     (case int4 (quantity r) of
        Inl e \<Rightarrow> Inl e
      | Inr q \<Rightarrow>
          (case numeric_10_2 (unit_price r) of
             Inl e \<Rightarrow> Inl e
           | Inr p \<Rightarrow>
               (case numeric_10_2 (subtotal r) of
                  Inl e \<Rightarrow> Inl e
                | Inr s \<Rightarrow>
                    Inr \<lparr>i_id = new_id, i_order_id = order_id r,
                         i_fish_listing_id = fish_listing_id r, i_quantity = q,
                         i_unit_price = p, i_subtotal = s, i_created_at = t\<rparr>)))"

definition order_item_violation :: "uuid option \<Rightarrow> database \<Rightarrow> order_item \<Rightarrow> pg_error option" where
  "order_item_violation auth db it =
     (if \<not> order_items_insert_check auth db it then Some (RlsViolation ''order_items'')
      else if \<not> 0 < i_quantity it
        then Some (CheckViolation ''order_items'' ''order_items_quantity_check'' (ItemRow it))
      else if \<not> 0 < i_unit_price it
        then Some (CheckViolation ''order_items'' ''order_items_unit_price_check'' (ItemRow it))
      else if \<not> 0 < i_subtotal it
        then Some (CheckViolation ''order_items'' ''order_items_subtotal_check'' (ItemRow it))
      else if i_id it \<in> set (map i_id (order_items db))
        then Some (UniqueViolation ''order_items'' ''order_items_pkey'' (KeyUuid (i_id it)))
      else None)"

definition order_item_fk_violation :: "database \<Rightarrow> order_item \<Rightarrow> pg_error option" where
  "order_item_fk_violation db it =
     (if i_order_id it \<notin> set (map o_id (orders db))
        then Some (ForeignKeyViolation ''order_items'' ''order_items_order_id_fkey''
                     (KeyUuid (i_order_id it)))
      else if i_fish_listing_id it \<notin> set (map l_id (fish_listings db))
        then Some (ForeignKeyViolation ''order_items'' ''order_items_fish_listing_id_fkey''
                     (KeyUuid (i_fish_listing_id it)))
      else None)"

fun order_item_rows ::
  "uuid option \<Rightarrow> database \<Rightarrow> nat \<Rightarrow> order_item_insert list \<Rightarrow> pg_error + order_item list"
where
  "order_item_rows auth db k [] = Inr []"
| "order_item_rows auth db k (r # rs) =
     (case order_item_row (next_uuid db + k) (clock db) r of
        Inl e \<Rightarrow> Inl e
      | Inr it \<Rightarrow>
          (case order_item_violation auth db it of
             Some e \<Rightarrow> Inl e
           | None \<Rightarrow>
               (case order_item_rows auth db (Suc k) rs of
                  Inl e \<Rightarrow> Inl e
                | Inr its \<Rightarrow> Inr (it # its))))"

fun first_violation :: "('a \<Rightarrow> pg_error option) \<Rightarrow> 'a list \<Rightarrow> pg_error option" where
  "first_violation chk [] = None"
| "first_violation chk (x # xs) =
     (case chk x of Some e \<Rightarrow> Some e | None \<Rightarrow> first_violation chk xs)"

definition insert_order_items ::
  "uuid option \<Rightarrow> order_item_insert list \<Rightarrow> database \<Rightarrow> (pg_error + order_item list) \<times> database"
where
  "insert_order_items auth rs db =
     (case order_item_rows auth db 0 rs of
        Inl e \<Rightarrow> (Inl e, db)
      | Inr rows \<Rightarrow>
          (case first_violation (order_item_fk_violation db) rows of
             Some e \<Rightarrow> (Inl e, db)
           | None \<Rightarrow>
               (Inr rows, db\<lparr>order_items := order_items db @ rows,
                              next_uuid := next_uuid db + length rs\<rparr>)))"

section \<open>\<^verbatim>\<open>createOrder\<close>\<close>

record order_data =
  farmer_id :: uuid
  farmer_code :: string
  total_amount :: number
  items :: "order_item_data list"

text \<open>
  \<^verbatim>\<open>createOrder\<close> of \<^verbatim>\<open>src/lib/supabase.ts\<close>. \<open>auth\<close> is the user of
  \<^verbatim>\<open>supabase.auth.getUser()\<close>. The result is \<open>Inl\<close> of what the function throws, or
  \<open>Inr\<close> of the \<^verbatim>\<open>data\<close> it returns (its \<^verbatim>\<open>error\<close> is then \<^verbatim>\<open>null\<close>), with the store
  after the call.
\<close>

definition createOrder ::
  "uuid option \<Rightarrow> order_data \<Rightarrow> database \<Rightarrow> (exn + order \<times> order_item list) \<times> database"
where
  "createOrder auth orderData db =
     (case auth of
        None \<Rightarrow> (Inl (Error ''User not authenticated''), db)
      | Some user_id \<Rightarrow>
          (case insert_order auth user_id (farmer_id orderData) (farmer_code orderData)
                  (total_amount orderData) db of
             (Inl orderError, db1) \<Rightarrow> (Inl (Rejected orderError), db1)
           | (Inr order, db1) \<Rightarrow>
               (let orderItems =
                      map (\<lambda>item. \<lparr>fish_listing_id = fish_listing_id item,
                                    quantity = quantity item, unit_price = unit_price item,
                                    subtotal = subtotal item, order_id = o_id order\<rparr>)
                        (items orderData)
                in case insert_order_items auth orderItems db1 of
                     (Inl itemsError, db2) \<Rightarrow> (Inl (Rejected itemsError), db2)
                   | (Inr items', db2) \<Rightarrow> (Inr (order, items'), db2))))"

section \<open>Checkout\<close>

text \<open>
  The \<^verbatim>\<open>farmer\<close> object that the catalog query attaches to a listing, the listing as
  \<^verbatim>\<open>getFishListings\<close> returns it, and \<^verbatim>\<open>CartItem\<close> of \<^verbatim>\<open>CustomerDashboard\<close>. A column
  that is \<^verbatim>\<open>null\<close> in the response is \<open>None\<close>.
\<close>

record farmer_public =
  full_name :: string
  company_name :: string
  unique_code :: "string option"
  city :: string
  state :: string

record listing_with_farmer = fish_listing +
  farmer :: "farmer_public option"

record cart_item = listing_with_farmer +
  orderQuantity :: int

text \<open>
  The value of one key of \<^verbatim>\<open>ordersByFarmer\<close> (fields prefixed by \<open>g_\<close>). The object
  itself is the list of its values in insertion order, which is the order of
  \<^verbatim>\<open>Object.values\<close> for keys that are not array indices, as the text of a uuid is.
\<close>

record order_group =
  g_farmer_id :: uuid
  g_farmer_code :: string
  g_items :: "order_item_data list"
  g_total :: number

text \<open>
  The callback of \<^verbatim>\<open>cart.reduce\<close> in \<^verbatim>\<open>handleCheckout\<close>. \<^verbatim>\<open>!acc[farmerId]\<close> holds exactly
  when the object has no group under that key (a group is an object, hence truthy, and
  the text of a uuid is not the name of an inherited property).
  \<^verbatim>\<open>item.farmer?.unique_code || ''\<close> is the empty string when the farmer or its code
  is absent or empty.

  A cart item is a listing as the catalog returned it, so its \<^verbatim>\<open>price_per_unit\<close> is a
  stored price and \<^verbatim>\<open>orderQuantity\<close> a whole number. The products and sums are
  exact here and doubles in the source; the double differs from the exact value by
  far less than the half hundredth that the column rounds away, so both store the
  same amount and both overflow the column together.
\<close>

definition group_step :: "order_group list \<Rightarrow> cart_item \<Rightarrow> order_group list" where
  "group_step acc item =
     (let farmerId = l_farmer_id item;
          acc1 = (if farmerId \<notin> set (map g_farmer_id acc)
                  then acc @ [\<lparr>g_farmer_id = farmerId,
                                g_farmer_code =
                                  (case farmer item of None \<Rightarrow> ''''
                                   | Some f \<Rightarrow>
                                       (case unique_code f of None \<Rightarrow> ''''
                                        | Some c \<Rightarrow> if c = '''' then '''' else c)),
                                g_items = [], g_total = 0\<rparr>]
                  else acc)
      in map (\<lambda>g. if g_farmer_id g = farmerId
                   then g\<lparr>g_items := g_items g @
                             [\<lparr>fish_listing_id = l_id item,
                               quantity = orderQuantity item,
                               unit_price = to_number (l_price_per_unit item),
                               subtotal = to_number (l_price_per_unit item)
                                            * of_int (orderQuantity item)\<rparr>],
                           g_total := g_total g +
                             to_number (l_price_per_unit item)
                               * of_int (orderQuantity item)\<rparr>
                   else g) acc1)"

definition ordersByFarmer :: "cart_item list \<Rightarrow> order_group list" where
  "ordersByFarmer cart = foldl group_step [] cart"

definition getTotalAmount :: "cart_item list \<Rightarrow> number" where
  "getTotalAmount cart =
     foldl (\<lambda>total item.
              total + to_number (l_price_per_unit item) * of_int (orderQuantity item))
       0 cart"

text \<open>
  The loop \<^verbatim>\<open>for (const order of Object.values(ordersByFarmer))\<close>: it ends at the first
  \<^verbatim>\<open>createOrder\<close> that throws, with what was thrown. (\<^verbatim>\<open>createOrder\<close> returns
  \<^verbatim>\<open>error: null\<close> whenever it returns, so \<^verbatim>\<open>if (error) throw error\<close> never fires.)
\<close>

fun create_orders :: "uuid option \<Rightarrow> order_group list \<Rightarrow> database \<Rightarrow> exn option \<times> database" where
  "create_orders auth [] db = (None, db)"
| "create_orders auth (g # gs) db =
     (case createOrder auth
             \<lparr>farmer_id = g_farmer_id g, farmer_code = g_farmer_code g,
              total_amount = g_total g, items = g_items g\<rparr> db of
        (Inl e, db1) \<Rightarrow> (Some e, db1)
      | (Inr r, db1) \<Rightarrow> create_orders auth gs db1)"

text \<open>
  What the user of \<^verbatim>\<open>handleCheckout\<close> observes: the \<^verbatim>\<open>alert\<close> shown, the error written
  by \<^verbatim>\<open>console.error\<close> if any, and the cart afterwards (\<^verbatim>\<open>setCart([])\<close> on success only).
\<close>

datatype alert = PaymentProcessed number | FailedToProcessPayment

record checkout_outcome =
  alerted :: alert
  console_error :: "exn option"
  cart_after :: "cart_item list"

definition handleCheckout ::
  "uuid option \<Rightarrow> cart_item list \<Rightarrow> database \<Rightarrow> checkout_outcome \<times> database"
where
  "handleCheckout auth cart db =
     (case create_orders auth (ordersByFarmer cart) db of
        (None, db') \<Rightarrow>
          (\<lparr>alerted = PaymentProcessed (getTotalAmount cart), console_error = None,
            cart_after = []\<rparr>, db')
      | (Some error, db') \<Rightarrow>
          (\<lparr>alerted = FailedToProcessPayment, console_error = Some error,
            cart_after = cart\<rparr>, db'))"

section \<open>Statements on the listing and farmer tables\<close>

text \<open>
  \<^verbatim>\<open>SELECT\<close> under row-level security returns the rows that a policy for \<^verbatim>\<open>SELECT\<close>
  (or for \<^verbatim>\<open>ALL\<close>) admits.
\<close>

definition select_fish_listings :: "uuid option \<Rightarrow> database \<Rightarrow> fish_listing list" where
  "select_fish_listings auth db =
     filter (\<lambda>l. fish_listings_select auth l \<or> fish_listings_manage auth l) (fish_listings db)"

definition select_farmers :: "uuid option \<Rightarrow> database \<Rightarrow> farmer list" where
  "select_farmers auth db = filter (farmers_select auth) (farmers db)"

text \<open>
  \<^verbatim>\<open>.order('created_at', { ascending: false })\<close>. The order among rows of equal
  \<^verbatim>\<open>created_at\<close> is not determined by the query; the model fixes one.
\<close>

definition order_created_at_desc :: "('a \<Rightarrow> timestamptz) \<Rightarrow> 'a list \<Rightarrow> 'a list" where
  "order_created_at_desc created_at rows = rev (sort_key created_at rows)"

text \<open>
  The argument of \<^verbatim>\<open>createFishListing\<close> (fields prefixed by \<open>ld_\<close>): the four fields
  of its declared type, and the key \<^verbatim>\<open>farmer_id\<close>, which an object of that type may
  carry in addition (\<open>None\<close>: the object has no such key).
\<close>

record listing_data =
  ld_fish_type :: fish_type
  ld_quantity :: int
  ld_price_per_unit :: number
  ld_description :: string
  ld_farmer_id :: "uuid option"

text \<open>
  \<^verbatim>\<open>INSERT INTO fish_listings\<close> of a row with the given \<^verbatim>\<open>farmer_id\<close>, \<^verbatim>\<open>fish_type\<close>,
  \<^verbatim>\<open>quantity\<close>, \<^verbatim>\<open>price_per_unit\<close> and \<^verbatim>\<open>description\<close>; \<^verbatim>\<open>id\<close>, \<^verbatim>\<open>is_active\<close> and the
  timestamps take their defaults. Quantity and price are assigned to their columns
  first. The policy \<^verbatim>\<open>"Farmers can manage own listings"\<close> is \<^verbatim>\<open>FOR ALL\<close> with a
  \<^verbatim>\<open>USING\<close> clause only, which is then also the check on a new row; the two \<^verbatim>\<open>CHECK\<close>
  constraints, the primary key and the foreign key follow.
\<close>

definition insert_fish_listing ::
  "uuid option \<Rightarrow> uuid \<Rightarrow> listing_data \<Rightarrow> database \<Rightarrow> (pg_error + fish_listing) \<times> database"
where
  "insert_fish_listing auth fid listingData db =
     (case int4 (ld_quantity listingData) of
        Inl e \<Rightarrow> (Inl e, db)
      | Inr q \<Rightarrow>
          (case numeric_10_2 (ld_price_per_unit listingData) of
             Inl e \<Rightarrow> (Inl e, db)
           | Inr p \<Rightarrow>
               (let row = \<lparr>l_id = next_uuid db, l_farmer_id = fid,
                           l_fish_type = ld_fish_type listingData, l_quantity = q,
                           l_price_per_unit = p,
                           l_description = ld_description listingData, l_is_active = True,
                           l_created_at = clock db, l_updated_at = clock db\<rparr>
                in if \<not> fish_listings_manage auth row
                     then (Inl (RlsViolation ''fish_listings''), db)
                   else if \<not> 0 < l_quantity row
                     then (Inl (CheckViolation ''fish_listings''
                                  ''fish_listings_quantity_check'' (ListingRow row)), db)
                   else if \<not> 0 < l_price_per_unit row
                     then (Inl (CheckViolation ''fish_listings''
                                  ''fish_listings_price_per_unit_check'' (ListingRow row)), db)
                   else if l_id row \<in> set (map l_id (fish_listings db))
                     then (Inl (UniqueViolation ''fish_listings'' ''fish_listings_pkey''
                                  (KeyUuid (l_id row))), db)
                   else if fid \<notin> set (map f_id (farmers db))
                     then (Inl (ForeignKeyViolation ''fish_listings''
                                  ''fish_listings_farmer_id_fkey'' (KeyUuid fid)), db)
                   else (Inr row, db\<lparr>fish_listings := fish_listings db @ [row],
                                      next_uuid := Suc (next_uuid db)\<rparr>))))"


definition farmer_projection :: "farmer \<Rightarrow> farmer_public" where
  "farmer_projection f =
     \<lparr>full_name = f_full_name f, company_name = f_company_name f,
      unique_code = f_unique_code f, city = f_city f, state = f_state f\<rparr>"

definition getFishListings :: "uuid option \<Rightarrow> database \<Rightarrow> pg_error + listing_with_farmer list" where
  "getFishListings auth db =
     Inr (map (\<lambda>l. fish_listing.extend l
                 (listing_with_farmer.fields
                    (map_option farmer_projection
                       (find (\<lambda>f. f_id f = l_farmer_id l) (select_farmers auth db)))))
            (order_created_at_desc l_created_at
               (filter (\<lambda>l. l_is_active l = True) (select_fish_listings auth db))))"

definition getFarmerListings ::
  "uuid option \<Rightarrow> database \<Rightarrow> exn + (pg_error + fish_listing list)"
where
  "getFarmerListings auth db =
     (case auth of
        None \<Rightarrow> Inl (Error ''User not authenticated'')
      | Some user_id \<Rightarrow>
          Inr (Inr (order_created_at_desc l_created_at
                      (filter (\<lambda>l. l_farmer_id l = user_id) (select_fish_listings auth db)))))"

text \<open>
  \<^verbatim>\<open>Partial<FishListing>\<close>, restricted to the columns of the table (fields prefixed by
  \<open>u_\<close>): an absent key is \<open>None\<close>.
\<close>

record listing_updates =
  u_id :: "uuid option"
  u_farmer_id :: "uuid option"
  u_fish_type :: "fish_type option"
  u_quantity :: "int option"
  u_price_per_unit :: "numeric option"
  u_description :: "string option"
  u_is_active :: "bool option"
  u_created_at :: "timestamptz option"
  u_updated_at :: "timestamptz option"

definition or_else :: "'a option \<Rightarrow> 'a \<Rightarrow> 'a" where
  "or_else v d = (case v of None \<Rightarrow> d | Some x \<Rightarrow> x)"

text \<open>
  The new row of an \<^verbatim>\<open>UPDATE\<close>: the given columns are set, then the trigger
  \<^verbatim>\<open>update_updated_at\<close> stamps \<^verbatim>\<open>updated_at := now()\<close>.
\<close>

definition updated_row :: "listing_updates \<Rightarrow> timestamptz \<Rightarrow> fish_listing \<Rightarrow> fish_listing" where
  "updated_row updates now l =
     \<lparr>l_id = or_else (u_id updates) (l_id l),
      l_farmer_id = or_else (u_farmer_id updates) (l_farmer_id l),
      l_fish_type = or_else (u_fish_type updates) (l_fish_type l),
      l_quantity = or_else (u_quantity updates) (l_quantity l),
      l_price_per_unit = or_else (u_price_per_unit updates) (l_price_per_unit l),
      l_description = or_else (u_description updates) (l_description l),
      l_is_active = or_else (u_is_active updates) (l_is_active l),
      l_created_at = or_else (u_created_at updates) (l_created_at l),
      l_updated_at = now\<rparr>"

definition updated_row_violation ::
  "uuid option \<Rightarrow> database \<Rightarrow> fish_listing \<Rightarrow> fish_listing \<Rightarrow> pg_error option"
where
  "updated_row_violation auth db old new =
     (if \<not> fish_listings_manage auth new then Some (RlsViolation ''fish_listings'')
      else if \<not> 0 < l_quantity new
        then Some (CheckViolation ''fish_listings'' ''fish_listings_quantity_check''
                     (ListingRow new))
      else if \<not> 0 < l_price_per_unit new
        then Some (CheckViolation ''fish_listings'' ''fish_listings_price_per_unit_check''
                     (ListingRow new))
      else if l_id new \<noteq> l_id old \<and> l_id new \<in> set (map l_id (fish_listings db))
        then Some (UniqueViolation ''fish_listings'' ''fish_listings_pkey''
                     (KeyUuid (l_id new)))
      else if l_farmer_id new \<notin> set (map f_id (farmers db))
        then Some (ForeignKeyViolation ''fish_listings'' ''fish_listings_farmer_id_fkey''
                     (KeyUuid (l_farmer_id new)))
      else if l_id new \<noteq> l_id old \<and> l_id old \<in> set (map i_fish_listing_id (order_items db))
        then Some (ForeignKeyViolation ''fish_listings''
                     ''order_items_fish_listing_id_fkey'' (KeyUuid (l_id old)))
      else None)"

text \<open>
  \<^verbatim>\<open>updateFishListing\<close>: \<^verbatim>\<open>UPDATE fish_listings SET ... WHERE id = $1\<close> under row-level
  security reaches only the rows that the policy for \<^verbatim>\<open>ALL\<close> admits; the rows it does
  not admit are skipped without an error. \<^verbatim>\<open>.select().single()\<close> then fails unless
  exactly one row comes back, and the statement has no effect.
\<close>

definition updateFishListing ::
  "uuid option \<Rightarrow> uuid \<Rightarrow> listing_updates \<Rightarrow> database \<Rightarrow> (pg_error + fish_listing) \<times> database"
where
  "updateFishListing auth id' updates db =
     (case filter (\<lambda>l. l_id l = id' \<and> fish_listings_manage auth l) (select_fish_listings auth db) of
        [old] \<Rightarrow>
          (let new = updated_row updates (clock db) old
           in case updated_row_violation auth db old new of
                Some e \<Rightarrow> (Inl e, db)
              | None \<Rightarrow>
                  (Inr new,
                   db\<lparr>fish_listings := map (\<lambda>l. if l = old then new else l) (fish_listings db)\<rparr>))
      | _ \<Rightarrow> (Inl NoSingleRow, db))"

text \<open>
  \<^verbatim>\<open>deleteFishListing\<close>: \<^verbatim>\<open>DELETE FROM fish_listings WHERE id = $1\<close> removes the rows with
  that id that the policy admits, and with each of them the order items that refer to
  it (\<^verbatim>\<open>ON DELETE CASCADE\<close>). The call has no \<^verbatim>\<open>.select()\<close>: it returns
  \<^verbatim>\<open>{ data: null, error: null }\<close> whatever the number of rows removed.
\<close>

definition deleteFishListing ::
  "uuid option \<Rightarrow> uuid \<Rightarrow> database \<Rightarrow> (pg_error + unit) \<times> database"
where
  "deleteFishListing auth id' db =
     (let doomed = filter (\<lambda>l. l_id l = id' \<and> fish_listings_manage auth l)
                     (select_fish_listings auth db)
      in (Inr (),
          db\<lparr>fish_listings := filter (\<lambda>l. l \<notin> set doomed) (fish_listings db),
             order_items := filter (\<lambda>it. i_fish_listing_id it \<notin> set (map l_id doomed))
                              (order_items db)\<rparr>))"

section \<open>Farmer codes\<close>

text \<open>
  \<^verbatim>\<open>generate_farmer_code()\<close> of the migration. \<^verbatim>\<open>random()\<close> and the arithmetic of
  \<^verbatim>\<open>double precision\<close> belong to the platform, not to the source: they are the
  parameter \<open>floor_random\<close>, where \<open>floor_random n m\<close> is the value of
  \<^verbatim>\<open>floor(random() * m)\<close> at the \<open>n\<close>-th call of \<^verbatim>\<open>random()\<close>, computed as the platform
  computes it. Every turn of the loop makes four calls. The loop has no bound: it is a
  partial function, and \<open>None\<close> stands for a call that never returns.

  \<open>text_of_int\<close> is the cast \<^verbatim>\<open>::text\<close> of the whole number that \<^verbatim>\<open>floor\<close> returns,
  \<open>LPAD\<close> fills on the left and cuts a longer text on the right, and \<open>chr\<close> is the
  character with the given code.
\<close>

fun digits :: "nat \<Rightarrow> string" where
  "digits n =
     (if n < 10 then [char_of (48 + n)] else digits (n div 10) @ [char_of (48 + n mod 10)])"

declare digits.simps [simp del]

definition text_of_int :: "int \<Rightarrow> string" where
  "text_of_int i = (if i < 0 then CHR ''-'' # digits (nat (- i)) else digits (nat i))"

definition LPAD :: "string \<Rightarrow> nat \<Rightarrow> char \<Rightarrow> string" where
  "LPAD s n fill = (if n \<le> length s then take n s else replicate (n - length s) fill @ s)"

definition chr :: "int \<Rightarrow> string" where
  "chr i = [char_of (nat i)]"

definition candidate_code :: "(nat \<Rightarrow> int \<Rightarrow> int) \<Rightarrow> nat \<Rightarrow> string" where
  "candidate_code floor_random n =
     ''FSH'' @ LPAD (text_of_int (floor_random n 1000)) 3 CHR ''0''
       @ chr (65 + floor_random (n + 1) 26)
       @ chr (65 + floor_random (n + 2) 26)
       @ chr (65 + floor_random (n + 3) 26)"

partial_function (option) generate_loop ::
  "(nat \<Rightarrow> int \<Rightarrow> int) \<Rightarrow> string option list \<Rightarrow> nat \<Rightarrow> string option"
where
  "generate_loop floor_random codes n =
     (if Some (candidate_code floor_random n) \<in> set codes
      then generate_loop floor_random codes (n + 4)
      else Some (candidate_code floor_random n))"

declare generate_loop.simps [code]

text \<open>
  The function is not \<^verbatim>\<open>SECURITY DEFINER\<close>: its \<^verbatim>\<open>SELECT ... FROM farmers\<close> sees the rows
  that the caller may read.
\<close>

definition generate_farmer_code ::
  "(nat \<Rightarrow> int \<Rightarrow> int) \<Rightarrow> uuid option \<Rightarrow> database \<Rightarrow> string option"
where
  "generate_farmer_code floor_random auth db =
     generate_loop floor_random (map f_unique_code (select_farmers auth db)) 0"

text \<open>The trigger function \<^verbatim>\<open>set_farmer_code()\<close>, \<^verbatim>\<open>BEFORE INSERT ON farmers\<close>.\<close>

definition set_farmer_code ::
  "(nat \<Rightarrow> int \<Rightarrow> int) \<Rightarrow> uuid option \<Rightarrow> database \<Rightarrow> farmer \<Rightarrow> farmer option"
where
  "set_farmer_code floor_random auth db NEW =
     (if f_unique_code NEW = None \<or> f_unique_code NEW = Some ''''
      then map_option (\<lambda>code. NEW\<lparr>f_unique_code := Some code\<rparr>)
             (generate_farmer_code floor_random auth db)
      else Some NEW)"

text \<open>
  \<^verbatim>\<open>INSERT INTO farmers\<close> of the row \<open>NEW\<close> (the defaults of the columns already filled
  in): the trigger runs first; then the row is refused by the policy
  (\<^verbatim>\<open>auth.uid() = id\<close>), by \<^verbatim>\<open>NOT NULL\<close> on \<^verbatim>\<open>unique_code\<close>, or by one of the three
  unique constraints (\<^verbatim>\<open>id\<close>, \<^verbatim>\<open>email\<close>, \<^verbatim>\<open>unique_code\<close>). The check of \<^verbatim>\<open>id_type\<close>
  holds by the type. \<open>None\<close>: the trigger never returns.
\<close>

definition insert_farmer ::
  "(nat \<Rightarrow> int \<Rightarrow> int) \<Rightarrow> uuid option \<Rightarrow> farmer \<Rightarrow> database
     \<Rightarrow> ((pg_error + farmer) \<times> database) option"
where
  "insert_farmer floor_random auth NEW db =
     (case set_farmer_code floor_random auth db NEW of
        None \<Rightarrow> None
      | Some row \<Rightarrow>
          Some (if \<not> farmers_insert_check auth row then (Inl (RlsViolation ''farmers''), db)
                else if f_unique_code row = None
                  then (Inl (NotNullViolation ''farmers'' ''unique_code'' (FarmerRow row)), db)
                else if f_id row \<in> set (map f_id (farmers db))
                  then (Inl (UniqueViolation ''farmers'' ''farmers_pkey''
                               (KeyUuid (f_id row))), db)
                else if f_email row \<in> set (map f_email (farmers db))
                  then (Inl (UniqueViolation ''farmers'' ''farmers_email_key''
                               (KeyText (f_email row))), db)
                else if f_unique_code row \<in> set (map f_unique_code (farmers db))
                  then (Inl (UniqueViolation ''farmers'' ''farmers_unique_code_key''
                               (KeyText (or_else (f_unique_code row) ''''))), db)
                else (Inr row, db\<lparr>farmers := farmers db @ [row]\<rparr>)))"

text \<open>
  The format of a generated code: \<^verbatim>\<open>FSH\<close>, three decimal digits, three upper-case
  letters.
\<close>

definition is_digit :: "char \<Rightarrow> bool" where
  "is_digit c = (48 \<le> (of_char c :: nat) \<and> (of_char c :: nat) \<le> 57)"

definition is_upper :: "char \<Rightarrow> bool" where
  "is_upper c = (65 \<le> (of_char c :: nat) \<and> (of_char c :: nat) \<le> 90)"

definition is_farmer_code :: "string \<Rightarrow> bool" where
  "is_farmer_code c =
     (length c = 9 \<and> take 3 c = ''FSH'' \<and> list_all is_digit (take 3 (drop 3 c))
      \<and> list_all is_upper (drop 6 c))"

section \<open>Notions used in the statements\<close>

text \<open>
  The columns of an order item that \<^verbatim>\<open>createOrder\<close> supplies, and the three \<^verbatim>\<open>CHECK\<close>
  constraints of the table \<^verbatim>\<open>order_items\<close>.
\<close>

definition item_columns :: "order_item \<Rightarrow> uuid \<times> uuid \<times> int \<times> numeric \<times> numeric" where
  "item_columns it =
     (i_order_id it, i_fish_listing_id it, i_quantity it, i_unit_price it, i_subtotal it)"

definition item_checks :: "order_item \<Rightarrow> bool" where
  "item_checks it = (0 < i_quantity it \<and> 0 < i_unit_price it \<and> 0 < i_subtotal it)"

text \<open>The argument that the loop of \<^verbatim>\<open>handleCheckout\<close> passes to \<^verbatim>\<open>createOrder\<close>.\<close>

abbreviation order_data_of :: "order_group \<Rightarrow> order_data" where
  "order_data_of g \<equiv>
     \<lparr>farmer_id = g_farmer_id g, farmer_code = g_farmer_code g,
      total_amount = g_total g, items = g_items g\<rparr>"

text \<open>
  The item of one cart line as \<^verbatim>\<open>handleCheckout\<close> computes it, the amount of the line
  as a stored amount (in hundredths), the lines of one farmer, and what it means that
  a list of groups is the cart grouped by farmer.
\<close>

definition line_item :: "cart_item \<Rightarrow> order_item_data" where
  "line_item l =
     \<lparr>fish_listing_id = l_id l, quantity = orderQuantity l,
      unit_price = to_number (l_price_per_unit l),
      subtotal = to_number (l_price_per_unit l) * of_int (orderQuantity l)\<rparr>"

definition line_amount :: "cart_item \<Rightarrow> numeric" where
  "line_amount l = l_price_per_unit l * of_int (orderQuantity l)"

definition lines_of :: "uuid \<Rightarrow> cart_item list \<Rightarrow> cart_item list" where
  "lines_of fid cart = filter (\<lambda>l. l_farmer_id l = fid) cart"

definition grouped :: "cart_item list \<Rightarrow> order_group list \<Rightarrow> bool" where
  "grouped cart gs =
     (distinct (map g_farmer_id gs) \<and> set (map g_farmer_id gs) = set (map l_farmer_id cart)
      \<and> (\<forall>g\<in>set gs. g_items g = map line_item (lines_of (g_farmer_id g) cart)
                      \<and> g_total g
                          = to_number (sum_list (map line_amount (lines_of (g_farmer_id g) cart)))))"

text \<open>The two halves of the callback of \<^verbatim>\<open>reduce\<close>: a fresh group, and a line added.\<close>

definition new_group :: "cart_item \<Rightarrow> order_group" where
  "new_group item =
     \<lparr>g_farmer_id = l_farmer_id item,
      g_farmer_code =
        (case farmer item of None \<Rightarrow> ''''
         | Some f \<Rightarrow> (case unique_code f of None \<Rightarrow> '''' | Some c \<Rightarrow> if c = '''' then '''' else c)),
      g_items = [], g_total = 0\<rparr>"

definition add_line :: "cart_item \<Rightarrow> order_group \<Rightarrow> order_group" where
  "add_line item g =
     (if g_farmer_id g = l_farmer_id item
      then g\<lparr>g_items := g_items g @ [line_item item],
             g_total := g_total g + to_number (line_amount item)\<rparr>
      else g)"

text \<open>
  An order row that is the order of a group for the user \<open>auth\<close>; the columns of the
  item rows of an order as they are stored, prices and subtotals rounded to hundredths;
  an item passed to \<^verbatim>\<open>createOrder\<close> whose unit price has two decimals and whose
  subtotal is unit price times quantity; the same equality on a stored row.
\<close>

definition order_of_group :: "uuid option \<Rightarrow> order \<Rightarrow> order_group \<Rightarrow> bool" where
  "order_of_group auth ord g =
     (Some (o_customer_id ord) = auth \<and> o_farmer_id ord = g_farmer_id g
      \<and> o_farmer_code ord = g_farmer_code g
      \<and> numeric_10_2 (g_total g) = Inr (o_total_amount ord)
      \<and> o_status ord = pending \<and> 0 < o_total_amount ord)"

definition item_rows_of ::
  "order \<Rightarrow> order_item_data list \<Rightarrow> (uuid \<times> uuid \<times> int \<times> numeric \<times> numeric) list"
where
  "item_rows_of ord ds =
     map (\<lambda>d. (o_id ord, fish_listing_id d, quantity d,
                round_half_away (unit_price d * 100), round_half_away (subtotal d * 100)))
       ds"

definition priced :: "order_item_data \<Rightarrow> bool" where
  "priced d =
     (to_number (round_half_away (unit_price d * 100)) = unit_price d
      \<and> subtotal d = unit_price d * of_int (quantity d))"

definition item_priced :: "order_item \<Rightarrow> bool" where
  "item_priced it = (i_subtotal it = i_unit_price it * of_int (i_quantity it))"

text \<open>
  What makes a checkout go through. The ids in use lie below the next id that the store
  hands out. A cart line is accepted by a store when its farmer and its listing are
  there, its quantity is positive and fits an \<^verbatim>\<open>integer\<close>, its price is positive, and the
  total of its farmer's lines stays below \<open>10^8\<close> (\<open>10^10\<close> hundredths).
\<close>

definition fresh_ids :: "database \<Rightarrow> bool" where
  "fresh_ids db =
     (list_all (\<lambda>ord. o_id ord < next_uuid db) (orders db)
      \<and> list_all (\<lambda>it. i_id it < next_uuid db) (order_items db))"

definition line_accepted :: "database \<Rightarrow> cart_item list \<Rightarrow> cart_item \<Rightarrow> bool" where
  "line_accepted db cart l =
     (l_farmer_id l \<in> set (map f_id (farmers db))
      \<and> l_id l \<in> set (map l_id (fish_listings db))
      \<and> 0 < orderQuantity l \<and> orderQuantity l < 2 ^ 31
      \<and> 0 < l_price_per_unit l
      \<and> sum_list (map line_amount (lines_of (l_farmer_id l) cart)) < 10 ^ 10)"

text \<open>A farmer row with its contact columns \<^verbatim>\<open>phone\<close> and \<^verbatim>\<open>email\<close> blanked.\<close>

definition hide_contact :: "farmer \<Rightarrow> farmer" where
  "hide_contact f = f\<lparr>f_phone := '''', f_email := ''''\<rparr>"

section \<open>A concrete store and cart\<close>

text \<open>
  Two farmers, one customer and three active listings at the prices 100, 50 and 20
  (stored in hundredths); the cart holds two listings of the first farmer and one of
  the second.
\<close>

definition farmer_row :: "uuid \<Rightarrow> string \<Rightarrow> string \<Rightarrow> string \<Rightarrow> string \<Rightarrow> farmer" where
  "farmer_row i name phone email code =
     \<lparr>f_id = i, f_full_name = name, f_company_name = ''Farm'', f_phone = phone,
      f_email = email, f_password_hash = ''handled_by_auth'', f_country = ''NG'',
      f_state = ''Lagos'', f_local_government = ''Ikeja'', f_city = ''Ikeja'',
      f_street = ''1 Pond Rd'', f_business_cert_url = Some '''', f_id_card_url = Some '''',
      f_id_type = nin, f_unique_code = Some code, f_is_verified = False,
      f_created_at = 1, f_updated_at = 1\<rparr>"

definition customer_row :: "uuid \<Rightarrow> customer" where
  "customer_row i =
     \<lparr>c_id = i, c_full_name = ''Chi'', c_company_name = ''Shop'',
      c_company_address = ''2 Market St'', c_phone = ''0802'', c_email = ''chi@x.ng'',
      c_password_hash = ''handled_by_auth'', c_created_at = 1, c_updated_at = 1\<rparr>"

definition listing_row :: "uuid \<Rightarrow> uuid \<Rightarrow> numeric \<Rightarrow> bool \<Rightarrow> timestamptz \<Rightarrow> fish_listing" where
  "listing_row i fid price active t =
     \<lparr>l_id = i, l_farmer_id = fid, l_fish_type = catfish, l_quantity = 10,
      l_price_per_unit = price, l_description = ''fresh'', l_is_active = active,
      l_created_at = t, l_updated_at = t\<rparr>"

definition example_db :: database where
  "example_db =
     \<lparr>farmers = [farmer_row 1 ''Ada'' ''0801'' ''ada@x.ng'' ''FSH001AAA'',
                 farmer_row 2 ''Bayo'' ''0803'' ''bayo@x.ng'' ''FSH002BBB''],
      customers = [customer_row 100],
      fish_listings = [listing_row 11 1 10000 True 2, listing_row 12 1 5000 True 3,
                       listing_row 13 2 2000 True 4],
      orders = [], order_items = [], next_uuid = 1000, clock = 5\<rparr>"

definition cart_line :: "uuid \<Rightarrow> uuid \<Rightarrow> string \<Rightarrow> numeric \<Rightarrow> int \<Rightarrow> cart_item" where
  "cart_line i fid code price qty =
     \<lparr>l_id = i, l_farmer_id = fid, l_fish_type = catfish, l_quantity = 10,
      l_price_per_unit = price, l_description = ''fresh'', l_is_active = True,
      l_created_at = 2, l_updated_at = 2,
      farmer = Some \<lparr>full_name = ''Ada'', company_name = ''Farm'',
                      unique_code = Some code, city = ''Ikeja'', state = ''Lagos''\<rparr>,
      orderQuantity = qty\<rparr>"

definition example_cart :: "cart_item list" where
  "example_cart =
     [cart_line 11 1 ''FSH001AAA'' 10000 2, cart_line 12 1 ''FSH001AAA'' 5000 1,
      cart_line 13 2 ''FSH002BBB'' 2000 3]"

text \<open>
  A new farmer without a code, and a random source whose first candidate is the code
  of the first farmer of the store.
\<close>

definition example_new_farmer :: farmer where
  "example_new_farmer =
     (farmer_row 3 ''Chidi'' ''0805'' ''chidi@x.ng'' '''')\<lparr>f_unique_code := None\<rparr>"

definition example_random :: "nat \<Rightarrow> rat" where
  "example_random n = (if n = 0 then 1 / 1000 else if n < 4 then 0 else 1 / 2)"

definition example_floor_random :: "nat \<Rightarrow> int \<Rightarrow> int" where
  "example_floor_random n m = \<lfloor>example_random n * of_int m\<rfloor>"

text \<open>
  An order for a listing that is no longer in the store (id 99), an order whose item
  carries a subtotal that is not quantity times unit price, a cart whose second line is
  for a listing that is no longer in the store, a cart with one line for each farmer,
  and the store after the second farmer and its listing were removed.
\<close>

definition example_stale_order :: order_data where
  "example_stale_order =
     \<lparr>farmer_id = 1, farmer_code = ''FSH001AAA'', total_amount = 200,
      items = [\<lparr>fish_listing_id = 99, quantity = 2, unit_price = 100, subtotal = 200\<rparr>]\<rparr>"

definition example_mispriced_order :: order_data where
  "example_mispriced_order =
     \<lparr>farmer_id = 1, farmer_code = ''FSH001AAA'', total_amount = 200,
      items = [\<lparr>fish_listing_id = 11, quantity = 2, unit_price = 100, subtotal = 1\<rparr>]\<rparr>"

definition example_partial_cart :: "cart_item list" where
  "example_partial_cart =
     [cart_line 11 1 ''FSH001AAA'' 10000 2, cart_line 99 2 ''FSH002BBB'' 2000 3]"

definition example_two_farmer_cart :: "cart_item list" where
  "example_two_farmer_cart =
     [cart_line 11 1 ''FSH001AAA'' 10000 2, cart_line 13 2 ''FSH002BBB'' 2000 3]"

definition example_db_without_farmer2 :: database where
  "example_db_without_farmer2 =
     example_db\<lparr>farmers := [farmer_row 1 ''Ada'' ''0801'' ''ada@x.ng'' ''FSH001AAA''],
                 fish_listings := [listing_row 11 1 10000 True 2,
                                   listing_row 12 1 5000 True 3]\<rparr>"

definition example_listing_data :: listing_data where
  "example_listing_data =
     \<lparr>ld_fish_type = tilapia, ld_quantity = 5, ld_price_per_unit = 30,
      ld_description = ''pond'', ld_farmer_id = None\<rparr>"


text \<open>
  The store with the second listing switched off, the store with other contact data
  for the first farmer, and an update of the price.
\<close>

definition example_db_inactive :: database where
  "example_db_inactive =
     example_db\<lparr>fish_listings := [listing_row 11 1 10000 True 2,
                                   listing_row 12 1 5000 False 3,
                                   listing_row 13 2 2000 True 4]\<rparr>"

definition example_db_other_contact :: database where
  "example_db_other_contact =
     example_db\<lparr>farmers := [farmer_row 1 ''Ada'' ''0999'' ''other@x.ng'' ''FSH001AAA'',
                             farmer_row 2 ''Bayo'' ''0803'' ''bayo@x.ng'' ''FSH002BBB'']\<rparr>"

definition example_updates :: listing_updates where
  "example_updates =
     \<lparr>u_id = None, u_farmer_id = None, u_fish_type = None, u_quantity = None,
      u_price_per_unit = Some 100, u_description = None, u_is_active = None,
      u_created_at = None, u_updated_at = None\<rparr>"

section \<open>Frame properties of the order statements\<close>

lemma insert_order_frame:
  assumes "insert_order auth cid fid code amt db = (r, db')"
  shows "fish_listings db' = fish_listings db \<and> farmers db' = farmers db
         \<and> customers db' = customers db \<and> order_items db' = order_items db
         \<and> clock db' = clock db"
  using assms by (auto simp: insert_order_def Let_def split: if_splits sum.splits)

lemma insert_order_items_frame:
  assumes "insert_order_items auth rs db = (r, db')"
  shows "fish_listings db' = fish_listings db \<and> farmers db' = farmers db
         \<and> customers db' = customers db \<and> orders db' = orders db
         \<and> clock db' = clock db"
  using assms by (auto simp: insert_order_items_def split: option.splits sum.splits)

lemma createOrder_fish_listings:
  assumes "createOrder auth od db = (r, db')"
  shows "fish_listings db' = fish_listings db"
proof (cases auth)
  case None
  with assms show ?thesis by (simp add: createOrder_def)
next
  case (Some u)
  obtain r1 db1 where 1: "insert_order auth u (farmer_id od) (farmer_code od) (total_amount od) db = (r1, db1)"
    by (cases "insert_order auth u (farmer_id od) (farmer_code od) (total_amount od) db")
  show ?thesis
  proof (cases r1)
    case (Inl e)
    with assms Some 1 have "db' = db1" by (simp add: createOrder_def)
    with insert_order_frame [OF 1] show ?thesis by simp
  next
    case (Inr ord)
    let ?rs = "map (\<lambda>item. \<lparr>fish_listing_id = fish_listing_id item,
                  quantity = quantity item, unit_price = unit_price item,
                  subtotal = subtotal item, order_id = o_id ord\<rparr>) (items od)"
    obtain r2 db2 where 2: "insert_order_items auth ?rs db1 = (r2, db2)"
      by (cases "insert_order_items auth ?rs db1")
    from assms Some 1 Inr 2 have "db' = db2"
      by (cases r2) (simp_all add: createOrder_def)
    with insert_order_items_frame [OF 2] insert_order_frame [OF 1] show ?thesis by simp
  qed
qed

lemma create_orders_fish_listings:
  "create_orders auth gs db = (r, db') \<Longrightarrow> fish_listings db' = fish_listings db"
proof (induction gs arbitrary: db)
  case Nil
  then show ?case by simp
next
  case (Cons g gs)
  let ?od = "\<lparr>farmer_id = g_farmer_id g, farmer_code = g_farmer_code g,
              total_amount = g_total g, items = g_items g\<rparr>"
  obtain r1 db1 where 1: "createOrder auth ?od db = (r1, db1)"
    by (cases "createOrder auth ?od db")
  show ?case
  proof (cases r1)
    case (Inl e)
    with Cons.prems 1 have "db' = db1" by simp
    with createOrder_fish_listings [OF 1] show ?thesis by simp
  next
    case (Inr v)
    with Cons.prems 1 have "create_orders auth gs db1 = (r, db')" by simp
    from Cons.IH [OF this] createOrder_fish_listings [OF 1] show ?thesis by simp
  qed
qed

lemma handleCheckout_fish_listings:
  "handleCheckout auth cart db = (out, db') \<Longrightarrow> fish_listings db' = fish_listings db"
  by (auto simp: handleCheckout_def split: prod.splits option.splits
        dest: create_orders_fish_listings)

lemmas example_defs =
  example_db_def example_cart_def cart_line_def farmer_row_def customer_row_def
  listing_row_def

lemmas checkout_defs =
  handleCheckout_def ordersByFarmer_def group_step_def getTotalAmount_def createOrder_def
  insert_order_def insert_order_items_def order_item_violation_def
  order_item_fk_violation_def order_items_insert_check_def orders_insert_check_def
  orders_select_def order_item_row_def numeric_10_2_def int4_def to_number_def Let_def

section \<open>The code generator\<close>

lemma digits_all_digit: "list_all is_digit (digits n)"
proof (induction n rule: digits.induct)
  case (1 n)
  show ?case
  proof (cases "n < 10")
    case True
    then show ?thesis by (subst digits.simps) (simp add: is_digit_def)
  next
    case False
    have "n mod 10 < 10" by simp
    then have "is_digit (char_of (48 + n mod 10))" by (simp add: is_digit_def)
    with False 1 show ?thesis by (subst digits.simps) simp
  qed
qed

lemma LPAD_digits:
  "length (LPAD (digits n) 3 CHR ''0'') = 3 \<and> list_all is_digit (LPAD (digits n) 3 CHR ''0'')"
proof -
  have d: "list_all is_digit (digits n)" by (rule digits_all_digit)
  have z: "is_digit CHR ''0''" by (simp add: is_digit_def)
  from d have "list_all is_digit (take 3 (digits n))"
    by (auto simp: list_all_iff dest: in_set_takeD)
  with d z show ?thesis by (auto simp: LPAD_def list_all_iff)
qed

lemma chr_upper:
  assumes "0 \<le> k" "k < 26"
  shows "length (chr (65 + k)) = 1 \<and> list_all is_upper (chr (65 + k))"
proof -
  from assms have "nat (65 + k) = 65 + nat k" "nat k < 26" by simp_all
  then show ?thesis by (simp add: chr_def is_upper_def)
qed

lemma floor_unit_interval:
  fixes r :: rat
  assumes "0 \<le> r" "r < 1" "0 < m"
  shows "0 \<le> \<lfloor>r * of_int m\<rfloor> \<and> \<lfloor>r * of_int m\<rfloor> < m"
proof -
  from assms have "0 \<le> r * of_int m" by simp
  moreover from assms have "r * of_int m < 1 * of_int m"
    by (intro mult_strict_right_mono) simp_all
  ultimately show ?thesis by (simp add: floor_less_iff)
qed

lemma candidate_code_format:
  assumes "\<forall>i. 0 \<le> floor_random i 1000 \<and> floor_random i 1000 < 1000
               \<and> 0 \<le> floor_random i 26 \<and> floor_random i 26 < 26"
  shows "is_farmer_code (candidate_code floor_random n)"
proof -
  from assms have a: "0 \<le> floor_random n 1000" by blast
  from assms have l: "\<And>i. 0 \<le> floor_random i 26 \<and> floor_random i 26 < 26" by blast
  from a have t: "text_of_int (floor_random n 1000) = digits (nat (floor_random n 1000))"
    by (simp add: text_of_int_def)
  note p = LPAD_digits [of "nat (floor_random n 1000)"]
  note c1 = chr_upper [of "floor_random (n + 1) 26"]
  note c2 = chr_upper [of "floor_random (n + 2) 26"]
  note c3 = chr_upper [of "floor_random (n + 3) 26"]
  from p c1 c2 c3 l show ?thesis
    by (simp add: is_farmer_code_def candidate_code_def t)
qed

lemma generate_loop_first_free:
  assumes "Some (candidate_code random (n + 4 * k)) \<notin> set codes"
    and "\<forall>j<k. Some (candidate_code random (n + 4 * j)) \<in> set codes"
  shows "generate_loop random codes n = Some (candidate_code random (n + 4 * k))"
  using assms
proof (induction k arbitrary: n)
  case 0
  then show ?case by (subst generate_loop.simps) simp
next
  case (Suc k)
  from Suc.prems(2) have "Some (candidate_code random (n + 4 * 0)) \<in> set codes"
    by blast
  then have eq: "generate_loop random codes n = generate_loop random codes (n + 4)"
    by (subst generate_loop.simps) simp
  have free: "Some (candidate_code random (n + 4 + 4 * k)) \<notin> set codes"
    using Suc.prems(1) by (simp add: add.assoc)
  have taken: "\<forall>j<k. Some (candidate_code random (n + 4 + 4 * j)) \<in> set codes"
  proof (intro allI impI)
    fix j assume "j < k"
    then have "Suc j < Suc k" by simp
    with Suc.prems(2) have "Some (candidate_code random (n + 4 * Suc j)) \<in> set codes"
      by blast
    then show "Some (candidate_code random (n + 4 + 4 * j)) \<in> set codes"
      by (simp add: add.assoc)
  qed
  from Suc.IH [OF free taken] eq show ?case by (simp add: add.assoc)
qed

lemma first_free_candidate:
  assumes "\<exists>k. Some (candidate_code random (4 * k)) \<notin> set codes"
  shows "\<exists>k. Some (candidate_code random (4 * k)) \<notin> set codes
           \<and> (\<forall>j<k. Some (candidate_code random (4 * j)) \<in> set codes)"
proof -
  let ?P = "\<lambda>k. Some (candidate_code random (4 * k)) \<notin> set codes"
  from assms obtain k where "?P k" by blast
  then have "?P (LEAST k. ?P k)" by (rule LeastI)
  moreover have "\<forall>j<(LEAST k. ?P k). \<not> ?P j" using not_less_Least by blast
  ultimately show ?thesis by blast
qed

lemma is_farmer_code_nonempty: "is_farmer_code c \<Longrightarrow> c \<noteq> []"
  by (auto simp: is_farmer_code_def)

lemma select_farmers_authenticated: "select_farmers (Some u) db = farmers db"
  by (simp add: select_farmers_def farmers_select_def)

lemma insert_farmer_accepted:
  assumes "set_farmer_code floor_random auth db NEW = Some row"
    and "auth = Some (f_id row)" and "f_unique_code row \<noteq> None"
    and "f_id row \<notin> set (map f_id (farmers db))"
    and "f_email row \<notin> set (map f_email (farmers db))"
    and "f_unique_code row \<notin> set (map f_unique_code (farmers db))"
  shows "insert_farmer floor_random auth NEW db
           = Some (Inr row, db\<lparr>farmers := farmers db @ [row]\<rparr>)"
  using assms by (simp add: insert_farmer_def farmers_insert_check_def)

section \<open>Assignment to columns\<close>

lemma round_half_away_of_int [simp]: "round_half_away (of_int k) = k"
proof -
  have "\<lfloor>of_int k + (1 / 2 :: rat)\<rfloor> = k" by linarith
  moreover have "\<lfloor>- of_int k + (1 / 2 :: rat)\<rfloor> = - k" by linarith
  ultimately show ?thesis by (simp add: round_half_away_def)
qed

lemma round_half_away_numeral [simp]:
  "round_half_away (numeral n) = numeral n" "round_half_away 0 = 0" "round_half_away 1 = 1"
  using round_half_away_of_int [of "numeral n"] round_half_away_of_int [of 0]
    round_half_away_of_int [of 1]
  by simp_all

lemma to_number_times_100 [simp]: "to_number h * 100 = of_int h"
  by (simp add: to_number_def)

lemma to_number_add: "to_number (a + b) = to_number a + to_number b"
  by (simp add: to_number_def add_divide_distrib)

lemma to_number_mult: "to_number (a * q) = to_number a * of_int q"
  by (simp add: to_number_def)

lemma numeric_10_2_Inr: "numeric_10_2 x = Inr h \<Longrightarrow> h = round_half_away (x * 100) \<and> \<bar>h\<bar> < 10 ^ 10"
  by (auto simp: numeric_10_2_def Let_def split: if_splits)

lemma numeric_10_2_to_number:
  "numeric_10_2 (to_number h) = (if 10 ^ 10 \<le> \<bar>h\<bar> then Inl NumericOverflow else Inr h)"
  by (simp add: numeric_10_2_def)

lemma int4_Inr: "int4 i = Inr q \<Longrightarrow> q = i"
  by (auto simp: int4_def split: if_splits)

section \<open>Outcomes of the order statements\<close>

lemma insert_order_Inl:
  "insert_order auth cid fid code amt db = (Inl e, db') \<Longrightarrow> db' = db"
  by (auto simp: insert_order_def Let_def split: if_splits sum.splits)

lemma insert_order_Inr:
  assumes "insert_order auth cid fid code amt db = (Inr ord, db')"
  shows "numeric_10_2 amt = Inr (o_total_amount ord) \<and> o_id ord = next_uuid db
         \<and> o_customer_id ord = cid \<and> o_farmer_id ord = fid \<and> o_farmer_code ord = code
         \<and> o_status ord = pending \<and> 0 < o_total_amount ord \<and> auth = Some cid
         \<and> db' = db\<lparr>orders := orders db @ [ord], next_uuid := Suc (next_uuid db)\<rparr>"
  using assms
  by (auto simp: insert_order_def Let_def orders_insert_check_def
      split: if_splits option.splits sum.splits)

lemma first_violation_None:
  "first_violation chk xs = None \<Longrightarrow> \<forall>x\<in>set xs. chk x = None"
  by (induction xs) (auto split: option.splits)

lemma first_violation_NoneI:
  "\<forall>x\<in>set xs. chk x = None \<Longrightarrow> first_violation chk xs = None"
  by (induction xs) auto

lemma insert_order_items_Inl:
  "insert_order_items auth rs db = (Inl e, db') \<Longrightarrow> db' = db"
  by (auto simp: insert_order_items_def split: option.splits sum.splits)

lemma order_item_violation_None:
  "order_item_violation auth db it = None \<Longrightarrow> item_checks it"
  by (auto simp: order_item_violation_def item_checks_def split: if_splits)

lemma order_item_row_Inr:
  assumes "order_item_row i t r = Inr it"
  shows "item_columns it
           = (order_id r, fish_listing_id r, quantity r,
              round_half_away (unit_price r * 100), round_half_away (subtotal r * 100))
         \<and> i_id it = i"
  using assms
  by (auto simp: order_item_row_def item_columns_def split: sum.splits
      dest: int4_Inr numeric_10_2_Inr)

lemma order_item_rows_Inr:
  assumes "order_item_rows auth db k rs = Inr its"
  shows "map item_columns its
           = map (\<lambda>r. (order_id r, fish_listing_id r, quantity r,
                        round_half_away (unit_price r * 100),
                        round_half_away (subtotal r * 100))) rs
         \<and> list_all item_checks its"
  using assms
proof (induction rs arbitrary: k its)
  case Nil
  then show ?case by simp
next
  case (Cons r rs)
  from Cons.prems obtain it its' where
    1: "order_item_row (next_uuid db + k) (clock db) r = Inr it"
    and 2: "order_item_violation auth db it = None"
    and 3: "order_item_rows auth db (Suc k) rs = Inr its'"
    and 4: "its = it # its'"
    by (auto split: sum.splits option.splits)
  from Cons.IH [OF 3] order_item_row_Inr [OF 1] order_item_violation_None [OF 2] 4
  show ?case by simp
qed

lemma insert_order_items_Inr:
  assumes "insert_order_items auth rs db = (Inr its, db')"
  shows "order_items db' = order_items db @ its \<and> orders db' = orders db
         \<and> map item_columns its
             = map (\<lambda>r. (order_id r, fish_listing_id r, quantity r,
                          round_half_away (unit_price r * 100),
                          round_half_away (subtotal r * 100))) rs
         \<and> list_all item_checks its"
proof -
  from assms have r: "order_item_rows auth db 0 rs = Inr its"
    and db': "db' = db\<lparr>order_items := order_items db @ its,
                         next_uuid := next_uuid db + length rs\<rparr>"
    by (auto simp: insert_order_items_def split: option.splits sum.splits)
  from order_item_rows_Inr [OF r] db' show ?thesis by simp
qed


lemma createOrder_outcomes:
  assumes "createOrder (Some u) od db = (r, db')"
  shows "(\<exists>e. r = Inl (Rejected e) \<and> db' = db)
       \<or> (\<exists>e ord. r = Inl (Rejected e) \<and> orders db' = orders db @ [ord]
             \<and> order_items db' = order_items db
             \<and> o_customer_id ord = u \<and> o_farmer_id ord = farmer_id od
             \<and> o_farmer_code ord = farmer_code od
             \<and> numeric_10_2 (total_amount od) = Inr (o_total_amount ord))
       \<or> (\<exists>ord its. r = Inr (ord, its) \<and> orders db' = orders db @ [ord]
             \<and> order_items db' = order_items db @ its
             \<and> o_customer_id ord = u \<and> o_farmer_id ord = farmer_id od
             \<and> o_farmer_code ord = farmer_code od
             \<and> numeric_10_2 (total_amount od) = Inr (o_total_amount ord)
             \<and> o_status ord = pending \<and> 0 < o_total_amount ord
             \<and> map item_columns its = item_rows_of ord (items od)
             \<and> list_all item_checks its)"
proof -
  obtain r1 db1 where 1:
    "insert_order (Some u) u (farmer_id od) (farmer_code od) (total_amount od) db = (r1, db1)"
    by (cases "insert_order (Some u) u (farmer_id od) (farmer_code od) (total_amount od) db")
  show ?thesis
  proof (cases r1)
    case (Inl e)
    with assms 1 have "r = Inl (Rejected e)" "db' = db1"
      by (simp_all add: createOrder_def)
    moreover have "db1 = db" by (rule insert_order_Inl [OF 1 [unfolded Inl]])
    ultimately show ?thesis by simp
  next
    case (Inr ord)
    note ord = insert_order_Inr [OF 1 [unfolded Inr]]
    let ?rs = "map (\<lambda>item. \<lparr>fish_listing_id = fish_listing_id item,
                  quantity = quantity item, unit_price = unit_price item,
                  subtotal = subtotal item, order_id = o_id ord\<rparr>) (items od)"
    obtain r2 db2 where 2: "insert_order_items (Some u) ?rs db1 = (r2, db2)"
      by (cases "insert_order_items (Some u) ?rs db1")
    show ?thesis
    proof (cases r2)
      case (Inl e)
      with assms 1 Inr 2 have "r = Inl (Rejected e)" "db' = db2"
        by (simp_all add: createOrder_def)
      moreover from 2 Inl have "db2 = db1" by (simp add: insert_order_items_Inl)
      ultimately show ?thesis using ord by (intro disjI2 disjI1) auto
    next
      case (Inr its)
      with assms 1 \<open>r1 = Inr ord\<close> 2 have "r = Inr (ord, its)" "db' = db2"
        by (simp_all add: createOrder_def)
      moreover note insert_order_items_Inr [OF 2 [unfolded Inr]]
      ultimately show ?thesis using ord
        by (intro disjI2) (auto simp: comp_def item_rows_of_def)
    qed
  qed
qed

section \<open>Grouping the cart\<close>

lemma group_step_alt:
  "group_step acc x =
     map (add_line x)
       (if l_farmer_id x \<in> set (map g_farmer_id acc) then acc else acc @ [new_group x])"
  by (simp add: group_step_def Let_def new_group_def add_line_def line_item_def line_amount_def
      to_number_mult)

lemma add_line_simps:
  "g_farmer_id (add_line x g) = g_farmer_id g"
  "g_farmer_id g = l_farmer_id x \<Longrightarrow> g_items (add_line x g) = g_items g @ [line_item x]"
  "g_farmer_id g = l_farmer_id x \<Longrightarrow>
     g_total (add_line x g) = g_total g + to_number (line_amount x)"
  "g_farmer_id g \<noteq> l_farmer_id x \<Longrightarrow> add_line x g = g"
  by (simp_all add: add_line_def)

lemma new_group_simps:
  "g_farmer_id (new_group x) = l_farmer_id x" "g_items (new_group x) = []"
  "g_total (new_group x) = 0"
  by (simp_all add: new_group_def)

lemma group_step_keys:
  "map g_farmer_id (group_step acc x) =
     (if l_farmer_id x \<in> set (map g_farmer_id acc) then map g_farmer_id acc
      else map g_farmer_id acc @ [l_farmer_id x])"
  by (simp add: group_step_alt comp_def add_line_simps new_group_simps)

lemma lines_of_empty: "fid \<notin> set (map l_farmer_id cart) \<Longrightarrow> lines_of fid cart = []"
  by (auto simp: lines_of_def filter_empty_conv)

lemma lines_of_snoc:
  "lines_of fid (cart @ [x]) =
     (if l_farmer_id x = fid then lines_of fid cart @ [x] else lines_of fid cart)"
  by (simp add: lines_of_def)

lemma grouped_step:
  assumes "grouped cart acc"
  shows "grouped (cart @ [x]) (group_step acc x)"
proof -
  let ?f = "l_farmer_id x"
  from assms have d: "distinct (map g_farmer_id acc)"
    and k: "set (map g_farmer_id acc) = set (map l_farmer_id cart)"
    and g: "\<And>g. g \<in> set acc \<Longrightarrow> g_items g = map line_item (lines_of (g_farmer_id g) cart)
                      \<and> g_total g = to_number (sum_list (map line_amount (lines_of (g_farmer_id g) cart)))"
    by (auto simp: grouped_def)
  have 1: "distinct (map g_farmer_id (group_step acc x))"
    using d by (simp add: group_step_keys)
  have 2: "set (map g_farmer_id (group_step acc x)) = set (map l_farmer_id (cart @ [x]))"
    using k by (auto simp: group_step_keys)
  have 3: "g_items g' = map line_item (lines_of (g_farmer_id g') (cart @ [x]))
           \<and> g_total g' = to_number (sum_list (map line_amount (lines_of (g_farmer_id g') (cart @ [x]))))"
    if "g' \<in> set (group_step acc x)" for g'
  proof -
    from that obtain g0 where g': "g' = add_line x g0"
      and g0: "g0 \<in> set acc \<or> (g0 = new_group x \<and> ?f \<notin> set (map g_farmer_id acc))"
      by (auto simp: group_step_alt split: if_splits)
    have old: "g_items g0 = map line_item (lines_of (g_farmer_id g0) cart)
               \<and> g_total g0 = to_number (sum_list (map line_amount (lines_of (g_farmer_id g0) cart)))"
    proof (cases "g0 \<in> set acc")
      case True
      then show ?thesis by (rule g)
    next
      case False
      with g0 have n: "g0 = new_group x" "?f \<notin> set (map l_farmer_id cart)" using k by auto
      from lines_of_empty [OF n(2)] n(1) show ?thesis
        by (simp add: new_group_simps to_number_def)
    qed
    show ?thesis
    proof (cases "g_farmer_id g0 = ?f")
      case True
      with old g' show ?thesis by (simp add: add_line_simps lines_of_snoc to_number_add)
    next
      case False
      with old g' show ?thesis by (simp add: add_line_simps lines_of_snoc)
    qed
  qed
  from 1 2 3 show ?thesis unfolding grouped_def by blast
qed

lemma grouped_ordersByFarmer: "grouped cart (ordersByFarmer cart)"
proof (induction cart rule: rev_induct)
  case Nil
  show ?case by (simp add: grouped_def ordersByFarmer_def)
next
  case (snoc x xs)
  have "ordersByFarmer (xs @ [x]) = group_step (ordersByFarmer xs) x"
    by (simp add: ordersByFarmer_def)
  with grouped_step [OF snoc] show ?case by simp
qed

section \<open>The loop over the groups\<close>

lemma createOrder_Inr:
  assumes "createOrder auth od db = (Inr (ord, its), db')"
  shows "Some (o_customer_id ord) = auth \<and> o_farmer_id ord = farmer_id od
         \<and> o_farmer_code ord = farmer_code od \<and> numeric_10_2 (total_amount od) = Inr (o_total_amount ord)
         \<and> o_status ord = pending \<and> 0 < o_total_amount ord
         \<and> orders db' = orders db @ [ord] \<and> order_items db' = order_items db @ its
         \<and> map item_columns its = item_rows_of ord (items od) \<and> list_all item_checks its"
proof (cases auth)
  case None
  with assms show ?thesis by (simp add: createOrder_def)
next
  case (Some u)
  from createOrder_outcomes [OF assms [unfolded Some]] Some show ?thesis
    by (auto simp: item_rows_of_def)
qed

lemma createOrder_Inl:
  assumes "createOrder auth od db = (Inl e, db')"
  shows "order_items db' = order_items db
         \<and> (orders db' = orders db
            \<or> (\<exists>ord. orders db' = orders db @ [ord] \<and> Some (o_customer_id ord) = auth
                  \<and> o_farmer_id ord = farmer_id od \<and> numeric_10_2 (total_amount od) = Inr (o_total_amount ord)))"
proof (cases auth)
  case None
  with assms show ?thesis by (simp add: createOrder_def)
next
  case (Some u)
  from createOrder_outcomes [OF assms [unfolded Some]] Some show ?thesis
    by auto
qed

lemma create_orders_success:
  assumes "create_orders auth gs db = (None, db')"
  shows "\<exists>os its. orders db' = orders db @ os \<and> order_items db' = order_items db @ its
           \<and> list_all2 (order_of_group auth) os gs
           \<and> map item_columns its
               = concat (map (\<lambda>(ord, g). item_rows_of ord (g_items g)) (zip os gs))
           \<and> list_all item_checks its"
  using assms
proof (induction gs arbitrary: db)
  case Nil
  then show ?case by simp
next
  case (Cons g gs)
  obtain r1 db1 where 1: "createOrder auth (order_data_of g) db = (r1, db1)"
    by (cases "createOrder auth (order_data_of g) db")
  show ?case
  proof (cases r1)
    case (Inl e)
    with Cons.prems 1 show ?thesis by simp
  next
    case (Inr v)
    obtain ord its where v: "v = (ord, its)" by (cases v)
    note c = createOrder_Inr [OF 1 [unfolded Inr v]]
    from Cons.prems 1 Inr have "create_orders auth gs db1 = (None, db')" by simp
    from Cons.IH [OF this] obtain os its' where
      r: "orders db' = orders db1 @ os" "order_items db' = order_items db1 @ its'"
         "list_all2 (order_of_group auth) os gs"
         "map item_columns its'
            = concat (map (\<lambda>(ord, g). item_rows_of ord (g_items g)) (zip os gs))"
         "list_all item_checks its'"
      by blast
    from c have og: "order_of_group auth ord g" by (simp add: order_of_group_def)
    have "orders db' = orders db @ (ord # os)" using r(1) c by simp
    moreover have "order_items db' = order_items db @ (its @ its')" using r(2) c by simp
    moreover have "list_all2 (order_of_group auth) (ord # os) (g # gs)" using og r(3) by simp
    moreover have "map item_columns (its @ its')
        = concat (map (\<lambda>(ord, g). item_rows_of ord (g_items g)) (zip (ord # os) (g # gs)))"
      using r(4) c by simp
    moreover have "list_all item_checks (its @ its')" using r(5) c by simp
    ultimately show ?thesis by blast
  qed
qed

lemma create_orders_failure:
  assumes "create_orders auth gs db = (Some e, db')"
  shows "\<exists>pre g post db1. gs = pre @ g # post \<and> create_orders auth pre db = (None, db1)
           \<and> createOrder auth (order_data_of g) db1 = (Inl e, db')"
  using assms
proof (induction gs arbitrary: db)
  case Nil
  then show ?case by simp
next
  case (Cons g gs)
  obtain r1 db1 where 1: "createOrder auth (order_data_of g) db = (r1, db1)"
    by (cases "createOrder auth (order_data_of g) db")
  show ?case
  proof (cases r1)
    case (Inl e1)
    with Cons.prems 1 have "e1 = e" "db1 = db'" by simp_all
    with 1 Inl have "g # gs = [] @ g # gs \<and> create_orders auth [] db = (None, db)
        \<and> createOrder auth (order_data_of g) db = (Inl e, db')" by simp
    then show ?thesis by blast
  next
    case (Inr v)
    with Cons.prems 1 have "create_orders auth gs db1 = (Some e, db')" by simp
    from Cons.IH [OF this] obtain pre g' post db2 where
      p: "gs = pre @ g' # post" "create_orders auth pre db1 = (None, db2)"
         "createOrder auth (order_data_of g') db2 = (Inl e, db')"
      by blast
    from p(2) 1 Inr have "create_orders auth (g # pre) db = (None, db2)" by simp
    with p(1,3) have "g # gs = (g # pre) @ g' # post
        \<and> create_orders auth (g # pre) db = (None, db2)
        \<and> createOrder auth (order_data_of g') db2 = (Inl e, db')" by simp
    then show ?thesis by blast
  qed
qed

section \<open>Orders, groups and lines\<close>

lemma sum_list_indicator:
  assumes "distinct fs" "a \<in> set fs"
  shows "sum_list (map (\<lambda>f. if a = f then 1 else 0) fs) = (1::nat)"
  using assms
proof (induction fs)
  case Nil
  then show ?case by simp
next
  case (Cons f fs)
  show ?case
  proof (cases "a = f")
    case True
    with Cons.prems have "a \<notin> set fs" by simp
    then have "sum_list (map (\<lambda>f. if a = f then 1 else 0) fs) = (0::nat)"
      by (induction fs) auto
    with True show ?thesis by simp
  next
    case False
    with Cons show ?thesis by simp
  qed
qed

lemma length_lines_partition:
  assumes "distinct fs" "set (map l_farmer_id cart) \<subseteq> set fs"
  shows "sum_list (map (\<lambda>f. length (lines_of f cart)) fs) = length cart"
  using assms
proof (induction cart)
  case Nil
  then show ?case by (simp add: lines_of_def)
next
  case (Cons x xs)
  have "sum_list (map (\<lambda>f. length (lines_of f (x # xs))) fs)
      = sum_list (map (\<lambda>f. (if l_farmer_id x = f then 1 else 0) + length (lines_of f xs)) fs)"
    by (intro arg_cong [where f = sum_list] map_cong) (auto simp: lines_of_def)
  also have "\<dots> = sum_list (map (\<lambda>f. if l_farmer_id x = f then 1 else 0) fs)
                  + sum_list (map (\<lambda>f. length (lines_of f xs)) fs)"
    by (simp add: sum_list_addf)
  also have "sum_list (map (\<lambda>f. if l_farmer_id x = f then 1 else 0) fs) = (1::nat)"
    using Cons.prems by (intro sum_list_indicator) simp_all
  finally show ?case using Cons by simp
qed

lemma numeric_10_2_to_number_Inr: "numeric_10_2 (to_number h) = Inr t \<Longrightarrow> t = h"
  by (simp add: numeric_10_2_to_number split: if_splits)

lemma round_line_amount [simp]:
  "round_half_away (to_number p * of_int q * 100) = p * q"
proof -
  have "to_number p * of_int q * 100 = of_int (p * q)" by (simp add: to_number_def)
  then show ?thesis by (simp only: round_half_away_of_int)
qed

lemma round_to_number [simp]: "round_half_away (to_number p * 100) = p"
  by (simp only: to_number_times_100 round_half_away_of_int)

lemma orders_match_groups:
  assumes "list_all2 (order_of_group auth) os gs"
    and "\<forall>g\<in>set gs. g_items g = map line_item (lines_of (g_farmer_id g) cart)
                      \<and> g_total g
                          = to_number (sum_list (map line_amount (lines_of (g_farmer_id g) cart)))"
  shows "map o_farmer_id os = map g_farmer_id gs
       \<and> (\<forall>ord\<in>set os.
             o_total_amount ord = sum_list (map line_amount (lines_of (o_farmer_id ord) cart))
             \<and> Some (o_customer_id ord) = auth \<and> o_status ord = pending)
       \<and> concat (map (\<lambda>(ord, g). item_rows_of ord (g_items g)) (zip os gs))
           = concat (map (\<lambda>ord. item_rows_of ord
                                  (map line_item (lines_of (o_farmer_id ord) cart))) os)"
  using assms
  by (induction rule: list_all2_induct)
     (auto simp: order_of_group_def dest: numeric_10_2_to_number_Inr)

lemma length_item_rows:
  "length (concat (map (\<lambda>ord. item_rows_of ord (map line_item (lines_of (o_farmer_id ord) cart))) os))
     = sum_list (map (\<lambda>f. length (lines_of f cart)) (map o_farmer_id os))"
  by (induction os) (simp_all add: item_rows_of_def)

lemma item_rows_subtotal:
  assumes "map item_columns its
             = concat (map (\<lambda>ord. item_rows_of ord
                                    (map line_item (lines_of (o_farmer_id ord) cart))) os)"
    and "it \<in> set its"
  shows "i_subtotal it = i_unit_price it * of_int (i_quantity it)"
proof -
  from assms(2) have "item_columns it \<in> set (map item_columns its)" by simp
  then have "item_columns it
      \<in> set (concat (map (\<lambda>ord. item_rows_of ord
                                    (map line_item (lines_of (o_farmer_id ord) cart))) os))"
    unfolding assms(1) .
  then obtain ord where
    "item_columns it \<in> set (item_rows_of ord (map line_item (lines_of (o_farmer_id ord) cart)))"
    by auto
  then obtain l where
    "item_columns it
       = (o_id ord, fish_listing_id (line_item l), quantity (line_item l),
          round_half_away (unit_price (line_item l) * 100),
          round_half_away (subtotal (line_item l) * 100))"
    unfolding item_rows_of_def by auto
  then have "item_columns it
       = (o_id ord, l_id l, orderQuantity l, l_price_per_unit l,
          l_price_per_unit l * orderQuantity l)"
    by (simp add: line_item_def)
  then show ?thesis by (simp add: item_columns_def)
qed

lemma item_rows_member:
  assumes "map item_columns its = item_rows_of ord ds" "it \<in> set its"
  shows "\<exists>d\<in>set ds. i_quantity it = quantity d
                   \<and> i_unit_price it = round_half_away (unit_price d * 100)
                   \<and> i_subtotal it = round_half_away (subtotal d * 100)"
proof -
  from assms(2) have "item_columns it \<in> set (map item_columns its)" by simp
  then have "item_columns it \<in> set (item_rows_of ord ds)" unfolding assms(1) .
  then obtain d where "d \<in> set ds"
    "item_columns it
       = (o_id ord, fish_listing_id d, quantity d, round_half_away (unit_price d * 100),
          round_half_away (subtotal d * 100))"
    unfolding item_rows_of_def by auto
  then show ?thesis by (auto simp: item_columns_def)
qed

lemma createOrder_items:
  assumes "createOrder auth od db = (r, db')"
  shows "\<exists>its. order_items db' = order_items db @ its \<and> list_all item_checks its
           \<and> (\<forall>it\<in>set its. \<exists>d\<in>set (items od).
                  i_quantity it = quantity d
                  \<and> i_unit_price it = round_half_away (unit_price d * 100)
                  \<and> i_subtotal it = round_half_away (subtotal d * 100))"
proof (cases r)
  case (Inl e)
  from createOrder_Inl [OF assms [unfolded Inl]] show ?thesis by simp
next
  case (Inr v)
  obtain ord its where v: "v = (ord, its)" by (cases v)
  note c = createOrder_Inr [OF assms [unfolded Inr v]]
  then have "order_items db' = order_items db @ its" "list_all item_checks its"
    "map item_columns its = item_rows_of ord (items od)" by simp_all
  with item_rows_member [of its ord "items od"] show ?thesis by blast
qed

lemma priced_stored:
  assumes "priced d" and "i_quantity it = quantity d"
    and "i_unit_price it = round_half_away (unit_price d * 100)"
    and "i_subtotal it = round_half_away (subtotal d * 100)"
  shows "item_priced it"
proof -
  from assms(1,3) have u: "unit_price d = to_number (i_unit_price it)"
    by (simp add: priced_def)
  from assms(1) have "subtotal d = unit_price d * of_int (quantity d)"
    by (simp add: priced_def)
  with u assms(2) have "subtotal d * 100
      = to_number (i_unit_price it) * of_int (i_quantity it) * 100"
    by simp
  with assms(4) show ?thesis
    by (simp only: item_priced_def round_line_amount) simp
qed

lemma create_orders_items:
  assumes "create_orders auth gs db = (r, db')"
    and "\<forall>g\<in>set gs. list_all priced (g_items g)"
  shows "\<exists>its. order_items db' = order_items db @ its \<and> list_all item_checks its
           \<and> list_all item_priced its"
  using assms
proof (induction gs arbitrary: db)
  case Nil
  then show ?case by simp
next
  case (Cons g gs)
  obtain r1 db1 where 1: "createOrder auth (order_data_of g) db = (r1, db1)"
    by (cases "createOrder auth (order_data_of g) db")
  from createOrder_items [OF 1] obtain its where
    i: "order_items db1 = order_items db @ its" "list_all item_checks its"
       "\<forall>it\<in>set its. \<exists>d\<in>set (g_items g).
          i_quantity it = quantity d
          \<and> i_unit_price it = round_half_away (unit_price d * 100)
          \<and> i_subtotal it = round_half_away (subtotal d * 100)"
    by auto
  from Cons.prems(2) have "\<forall>d\<in>set (g_items g). priced d" by (simp add: list_all_iff)
  with i(3) have p: "list_all item_priced its"
    unfolding list_all_iff by (blast intro: priced_stored)
  show ?case
  proof (cases r1)
    case (Inl e)
    with Cons.prems(1) 1 have "db' = db1" by simp
    with i p show ?thesis by blast
  next
    case (Inr v)
    with Cons.prems(1) 1 have "create_orders auth gs db1 = (r, db')" by simp
    moreover from Cons.prems(2) have "\<forall>g\<in>set gs. list_all priced (g_items g)" by simp
    ultimately obtain its' where
      "order_items db' = order_items db1 @ its'" "list_all item_checks its'"
      "list_all item_priced its'"
      using Cons.IH by blast
    with i p have "order_items db' = order_items db @ (its @ its')"
      "list_all item_checks (its @ its')" "list_all item_priced (its @ its')"
      by simp_all
    then show ?thesis by blast
  qed
qed

lemma ordersByFarmer_priced: "\<forall>g\<in>set (ordersByFarmer cart). list_all priced (g_items g)"
proof
  fix g assume "g \<in> set (ordersByFarmer cart)"
  with grouped_ordersByFarmer [of cart]
  have "g_items g = map line_item (lines_of (g_farmer_id g) cart)"
    by (simp add: grouped_def)
  then show "list_all priced (g_items g)"
    by (simp add: list_all_iff priced_def line_item_def)
qed

lemma order_of_group_farmers:
  "list_all2 (order_of_group auth) os gs \<Longrightarrow> map o_farmer_id os = map g_farmer_id gs"
  by (induction rule: list_all2_induct) (simp_all add: order_of_group_def)

section \<open>Reads of listings and farmers\<close>

lemma set_order_created_at_desc [simp]: "set (order_created_at_desc k xs) = set xs"
  by (simp add: order_created_at_desc_def)

lemma select_fish_listings_iff:
  "l \<in> set (select_fish_listings (Some P) db)
     \<longleftrightarrow> l \<in> set (fish_listings db) \<and> (l_is_active l \<or> l_farmer_id l = P)"
  by (auto simp: select_fish_listings_def fish_listings_select_def fish_listings_manage_def)

lemma truncate_extend [simp]:
  "fish_listing.truncate (fish_listing.extend l e) = l"
  by (simp add: fish_listing.truncate_def fish_listing.extend_def)

lemma getFishListings_rows:
  "\<exists>rows. getFishListings auth db = Inr rows
     \<and> map fish_listing.truncate rows
         = order_created_at_desc l_created_at
             (filter (\<lambda>l. l_is_active l = True) (select_fish_listings auth db))"
  by (simp add: getFishListings_def comp_def)

lemma farmers_select_hide_contact:
  "farmers_select auth (hide_contact f) = farmers_select auth f"
  by (simp add: farmers_select_def split: option.splits)

lemma joined_farmer_hide_contact:
  "map_option farmer_projection
     (find (\<lambda>f. f_id f = k) (filter (farmers_select auth) (map hide_contact fs)))
   = map_option farmer_projection
       (find (\<lambda>f. f_id f = k) (filter (farmers_select auth) fs))"
proof (induction fs)
  case Nil
  show ?case by simp
next
  case (Cons f fs)
  have "f_id (hide_contact f) = f_id f"
    "farmer_projection (hide_contact f) = farmer_projection f"
    by (simp_all add: hide_contact_def farmer_projection_def)
  with Cons show ?case by (simp add: farmers_select_hide_contact)
qed

lemma getFishListings_hide_contact:
  "getFishListings auth (db\<lparr>farmers := map hide_contact (farmers db)\<rparr>)
     = getFishListings auth db"
  by (simp add: getFishListings_def select_farmers_def select_fish_listings_def
      joined_farmer_hide_contact)

section \<open>Accepted statements\<close>

lemma order_item_rows_accepted:
  assumes "\<forall>r\<in>set rs. int4 (quantity r) = Inr (quantity r) \<and> 0 < quantity r
                    \<and> (\<exists>p. numeric_10_2 (unit_price r) = Inr p \<and> 0 < p)
                    \<and> (\<exists>s. numeric_10_2 (subtotal r) = Inr s \<and> 0 < s)
                    \<and> order_id r = oid"
    and "list_ex (\<lambda>o'. o_id o' = oid \<and> o_customer_id o' = u)
           (filter (orders_select (Some u)) (orders db))"
    and "\<forall>it\<in>set (order_items db). i_id it < next_uuid db"
  shows "\<exists>its. order_item_rows (Some u) db k rs = Inr its
           \<and> (\<forall>it\<in>set its. i_id it < next_uuid db + k + length rs \<and> i_order_id it = oid
                  \<and> i_fish_listing_id it \<in> fish_listing_id ` set rs)"
  using assms(1)
proof (induction rs arbitrary: k)
  case Nil
  then show ?case by simp
next
  case (Cons r rs)
  from Cons.prems obtain p s where
    c: "int4 (quantity r) = Inr (quantity r)" "0 < quantity r"
       "numeric_10_2 (unit_price r) = Inr p" "0 < p"
       "numeric_10_2 (subtotal r) = Inr s" "0 < s" "order_id r = oid"
    by auto
  let ?it = "\<lparr>i_id = next_uuid db + k, i_order_id = order_id r,
              i_fish_listing_id = fish_listing_id r, i_quantity = quantity r,
              i_unit_price = p, i_subtotal = s, i_created_at = clock db\<rparr>"
  from c have row: "order_item_row (next_uuid db + k) (clock db) r = Inr ?it"
    by (simp add: order_item_row_def)
  from assms(3) have "next_uuid db + k \<notin> set (map i_id (order_items db))" by auto
  with c assms(2) have ok: "order_item_violation (Some u) db ?it = None"
    by (simp add: order_item_violation_def order_items_insert_check_def)
  from Cons.prems have "\<forall>r\<in>set rs. int4 (quantity r) = Inr (quantity r) \<and> 0 < quantity r
                    \<and> (\<exists>p. numeric_10_2 (unit_price r) = Inr p \<and> 0 < p)
                    \<and> (\<exists>s. numeric_10_2 (subtotal r) = Inr s \<and> 0 < s)
                    \<and> order_id r = oid" by simp
  from Cons.IH [OF this, of "Suc k"] obtain its where
    its: "order_item_rows (Some u) db (Suc k) rs = Inr its"
      "\<forall>it\<in>set its. i_id it < next_uuid db + Suc k + length rs \<and> i_order_id it = oid
                  \<and> i_fish_listing_id it \<in> fish_listing_id ` set rs"
    by blast
  from row ok its(1) have "order_item_rows (Some u) db k (r # rs) = Inr (?it # its)" by simp
  moreover have "\<forall>it\<in>set (?it # its).
      i_id it < next_uuid db + k + length (r # rs) \<and> i_order_id it = oid
      \<and> i_fish_listing_id it \<in> fish_listing_id ` set (r # rs)"
    using its(2) c(7) by auto
  ultimately show ?case by blast
qed

lemma insert_order_items_accepted:
  assumes "\<forall>r\<in>set rs. int4 (quantity r) = Inr (quantity r) \<and> 0 < quantity r
                    \<and> (\<exists>p. numeric_10_2 (unit_price r) = Inr p \<and> 0 < p)
                    \<and> (\<exists>s. numeric_10_2 (subtotal r) = Inr s \<and> 0 < s)
                    \<and> order_id r = oid
                    \<and> fish_listing_id r \<in> set (map l_id (fish_listings db))"
    and "list_ex (\<lambda>o'. o_id o' = oid \<and> o_customer_id o' = u)
           (filter (orders_select (Some u)) (orders db))"
    and "\<forall>it\<in>set (order_items db). i_id it < next_uuid db"
  shows "\<exists>its. insert_order_items (Some u) rs db
                  = (Inr its, db\<lparr>order_items := order_items db @ its,
                                 next_uuid := next_uuid db + length rs\<rparr>)
           \<and> (\<forall>it\<in>set its. i_id it < next_uuid db + length rs)"
proof -
  from assms(1) have a: "\<forall>r\<in>set rs. int4 (quantity r) = Inr (quantity r) \<and> 0 < quantity r
                    \<and> (\<exists>p. numeric_10_2 (unit_price r) = Inr p \<and> 0 < p)
                    \<and> (\<exists>s. numeric_10_2 (subtotal r) = Inr s \<and> 0 < s)
                    \<and> order_id r = oid" by blast
  from order_item_rows_accepted [OF a assms(2,3), of 0] obtain its where
    its: "order_item_rows (Some u) db 0 rs = Inr its"
      "\<forall>it\<in>set its. i_id it < next_uuid db + 0 + length rs \<and> i_order_id it = oid
                  \<and> i_fish_listing_id it \<in> fish_listing_id ` set rs"
    by blast
  from assms(2) have "oid \<in> set (map o_id (orders db))"
    by (auto simp: list_ex_iff)
  with its(2) assms(1) have "\<forall>it\<in>set its. order_item_fk_violation db it = None"
    by (auto simp: order_item_fk_violation_def)
  then have "first_violation (order_item_fk_violation db) its = None"
    by (rule first_violation_NoneI)
  with its show ?thesis by (simp add: insert_order_items_def)
qed

lemma createOrder_accepted:
  assumes "u \<in> set (map c_id (customers db))"
    and "farmer_id od \<in> set (map f_id (farmers db))"
    and "numeric_10_2 (total_amount od) = Inr t" and "0 < t"
    and "fresh_ids db"
    and "\<forall>d\<in>set (items od). int4 (quantity d) = Inr (quantity d) \<and> 0 < quantity d
                    \<and> (\<exists>p. numeric_10_2 (unit_price d) = Inr p \<and> 0 < p)
                    \<and> (\<exists>s. numeric_10_2 (subtotal d) = Inr s \<and> 0 < s)
                    \<and> fish_listing_id d \<in> set (map l_id (fish_listings db))"
  shows "\<exists>ord its db'. createOrder (Some u) od db = (Inr (ord, its), db')
           \<and> fresh_ids db' \<and> customers db' = customers db \<and> farmers db' = farmers db
           \<and> fish_listings db' = fish_listings db"
proof -
  let ?row = "\<lparr>o_id = next_uuid db, o_customer_id = u, o_farmer_id = farmer_id od,
               o_farmer_code = farmer_code od, o_total_amount = t, o_status = pending,
               o_created_at = clock db, o_updated_at = clock db\<rparr>"
  let ?db1 = "db\<lparr>orders := orders db @ [?row], next_uuid := Suc (next_uuid db)\<rparr>"
  from assms(5) have fo: "\<forall>ord\<in>set (orders db). o_id ord < next_uuid db"
    and fi: "\<forall>it\<in>set (order_items db). i_id it < next_uuid db"
    by (simp_all add: fresh_ids_def list_all_iff)
  from fo have "next_uuid db \<notin> set (map o_id (orders db))" by auto
  with assms(1-4) have 1:
    "insert_order (Some u) u (farmer_id od) (farmer_code od) (total_amount od) db
       = (Inr ?row, ?db1)"
    by (simp add: insert_order_def orders_insert_check_def Let_def)
  let ?rs = "map (\<lambda>item. \<lparr>fish_listing_id = fish_listing_id item,
                quantity = quantity item, unit_price = unit_price item,
                subtotal = subtotal item, order_id = o_id ?row\<rparr>) (items od)"
  from assms(6) have a: "\<forall>r\<in>set ?rs. int4 (quantity r) = Inr (quantity r) \<and> 0 < quantity r
                    \<and> (\<exists>p. numeric_10_2 (unit_price r) = Inr p \<and> 0 < p)
                    \<and> (\<exists>s. numeric_10_2 (subtotal r) = Inr s \<and> 0 < s)
                    \<and> order_id r = next_uuid db
                    \<and> fish_listing_id r \<in> set (map l_id (fish_listings ?db1))"
    by auto
  have b: "list_ex (\<lambda>o'. o_id o' = next_uuid db \<and> o_customer_id o' = u)
             (filter (orders_select (Some u)) (orders ?db1))"
    by (simp add: list_ex_iff orders_select_def)
  from fi have c: "\<forall>it\<in>set (order_items ?db1). i_id it < next_uuid ?db1" by auto
  from insert_order_items_accepted [OF a b c] obtain its where
    2: "insert_order_items (Some u) ?rs ?db1
          = (Inr its, ?db1\<lparr>order_items := order_items ?db1 @ its,
                            next_uuid := next_uuid ?db1 + length ?rs\<rparr>)"
    and ids: "\<forall>it\<in>set its. i_id it < next_uuid ?db1 + length ?rs"
    by blast
  let ?db2 = "?db1\<lparr>order_items := order_items ?db1 @ its,
                     next_uuid := next_uuid ?db1 + length ?rs\<rparr>"
  from 1 2 have "createOrder (Some u) od db = (Inr (?row, its), ?db2)"
    by (simp add: createOrder_def)
  moreover from fo fi ids have "fresh_ids ?db2"
    by (auto simp: fresh_ids_def list_all_iff)
  ultimately show ?thesis by (intro exI [of _ ?row] exI [of _ its] exI [of _ ?db2]) simp
qed

lemma create_orders_accepted:
  assumes "u \<in> set (map c_id (customers db))" and "fresh_ids db"
    and "\<forall>g\<in>set gs. g_farmer_id g \<in> set (map f_id (farmers db))
            \<and> (\<exists>t. numeric_10_2 (g_total g) = Inr t \<and> 0 < t)
            \<and> (\<forall>d\<in>set (g_items g). int4 (quantity d) = Inr (quantity d) \<and> 0 < quantity d
                    \<and> (\<exists>p. numeric_10_2 (unit_price d) = Inr p \<and> 0 < p)
                    \<and> (\<exists>s. numeric_10_2 (subtotal d) = Inr s \<and> 0 < s)
                    \<and> fish_listing_id d \<in> set (map l_id (fish_listings db)))"
  shows "\<exists>db'. create_orders (Some u) gs db = (None, db')"
  using assms
proof (induction gs arbitrary: db)
  case Nil
  then show ?case by simp
next
  case (Cons g gs)
  from Cons.prems(3) obtain t where
    g: "g_farmer_id g \<in> set (map f_id (farmers db))"
       "numeric_10_2 (g_total g) = Inr t" "0 < t"
       "\<forall>d\<in>set (g_items g). int4 (quantity d) = Inr (quantity d) \<and> 0 < quantity d
                    \<and> (\<exists>p. numeric_10_2 (unit_price d) = Inr p \<and> 0 < p)
                    \<and> (\<exists>s. numeric_10_2 (subtotal d) = Inr s \<and> 0 < s)
                    \<and> fish_listing_id d \<in> set (map l_id (fish_listings db))"
    by auto
  from createOrder_accepted [of u db "order_data_of g" t] Cons.prems(1,2) g
  obtain ord its db1 where
    1: "createOrder (Some u) (order_data_of g) db = (Inr (ord, its), db1)"
    and k: "fresh_ids db1" "customers db1 = customers db" "farmers db1 = farmers db"
      "fish_listings db1 = fish_listings db"
    by auto
  from Cons.prems k have "\<exists>db'. create_orders (Some u) gs db1 = (None, db')"
    by (intro Cons.IH) simp_all
  with 1 show ?case by simp
qed

lemma sum_list_pos_member:
  fixes xs :: "int list"
  assumes "\<forall>x\<in>set xs. 0 < x" and "y \<in> set xs"
  shows "y \<le> sum_list xs \<and> 0 < sum_list xs"
  using assms
proof (induction xs)
  case Nil
  then show ?case by simp
next
  case (Cons x xs)
  from Cons.prems(1) have "0 \<le> sum_list xs" by (intro sum_list_nonneg) auto
  moreover from Cons.prems(1) have "0 < x" by simp
  ultimately show ?case using Cons by (cases "y \<in> set xs") auto
qed

lemma groups_accepted:
  assumes "\<forall>l\<in>set cart. line_accepted db cart l"
    and "g \<in> set (ordersByFarmer cart)"
  shows "g_farmer_id g \<in> set (map f_id (farmers db))
       \<and> (\<exists>t. numeric_10_2 (g_total g) = Inr t \<and> 0 < t)
       \<and> (\<forall>d\<in>set (g_items g). int4 (quantity d) = Inr (quantity d) \<and> 0 < quantity d
              \<and> (\<exists>p. numeric_10_2 (unit_price d) = Inr p \<and> 0 < p)
              \<and> (\<exists>s. numeric_10_2 (subtotal d) = Inr s \<and> 0 < s)
              \<and> fish_listing_id d \<in> set (map l_id (fish_listings db)))"
proof -
  let ?f = "g_farmer_id g"
  let ?lines = "lines_of ?f cart"
  let ?S = "sum_list (map line_amount ?lines)"
  note gr = grouped_ordersByFarmer [of cart]
  from gr assms(2) have gi: "g_items g = map line_item ?lines"
    and gt: "g_total g = to_number ?S"
    by (simp_all add: grouped_def)
  from gr assms(2) have "?f \<in> set (map l_farmer_id cart)"
    by (auto simp: grouped_def)
  then obtain l0 where l0: "l0 \<in> set cart" "l_farmer_id l0 = ?f" by auto
  then have l0': "l0 \<in> set ?lines" by (simp add: lines_of_def)
  from assms(1) l0 have a0: "line_accepted db cart l0" by blast
  have sub: "\<And>l. l \<in> set ?lines \<Longrightarrow> l \<in> set cart" by (simp add: lines_of_def)
  have pos: "\<forall>x\<in>set (map line_amount ?lines). 0 < x"
  proof
    fix x assume "x \<in> set (map line_amount ?lines)"
    then obtain l where "l \<in> set ?lines" "x = line_amount l" by auto
    with assms(1) sub have "0 < l_price_per_unit l" "0 < orderQuantity l" "x = line_amount l"
      by (auto simp: line_accepted_def)
    then show "0 < x" by (simp add: line_amount_def)
  qed
  from l0' have "line_amount l0 \<in> set (map line_amount ?lines)" by simp
  from sum_list_pos_member [OF pos this] have S0: "0 < ?S" by simp
  from a0 l0(2) have S1: "?S < 10 ^ 10" by (simp add: line_accepted_def)
  from S0 S1 have tot: "numeric_10_2 (g_total g) = Inr ?S"
    by (simp add: gt numeric_10_2_to_number)
  have it: "int4 (quantity d) = Inr (quantity d) \<and> 0 < quantity d
              \<and> (\<exists>p. numeric_10_2 (unit_price d) = Inr p \<and> 0 < p)
              \<and> (\<exists>s. numeric_10_2 (subtotal d) = Inr s \<and> 0 < s)
              \<and> fish_listing_id d \<in> set (map l_id (fish_listings db))"
    if "d \<in> set (g_items g)" for d
  proof -
    from that gi obtain l where l: "l \<in> set ?lines" "d = line_item l" by auto
    with assms(1) sub have a: "line_accepted db cart l" by blast
    let ?p = "l_price_per_unit l" and ?q = "orderQuantity l"
    from a have p: "0 < ?p" and q: "0 < ?q" "?q < 2 ^ 31"
      and li: "l_id l \<in> set (map l_id (fish_listings db))"
      by (simp_all add: line_accepted_def)
    from l(1) have "line_amount l \<in> set (map line_amount ?lines)" by simp
    from sum_list_pos_member [OF pos this] S1 have am: "?p * ?q < 10 ^ 10"
      by (simp add: line_amount_def)
    from p q have "?p * 1 \<le> ?p * ?q" by (intro mult_left_mono) simp_all
    with am have pb: "?p < 10 ^ 10" by simp
    from p q have pq: "0 < ?p * ?q" by simp
    have 1: "int4 ?q = Inr ?q" using q by (simp add: int4_def)
    have 2: "numeric_10_2 (to_number ?p) = Inr ?p" using p pb
      by (simp add: numeric_10_2_to_number)
    have "numeric_10_2 (to_number (?p * ?q)) = Inr (?p * ?q)" using pq am
      by (simp add: numeric_10_2_to_number)
    then have 3: "numeric_10_2 (to_number ?p * of_int ?q) = Inr (?p * ?q)"
      by (simp add: to_number_mult)
    from 1 2 3 p q pq li l(2) show ?thesis by (simp add: line_item_def)
  qed
  from a0 l0(2) have "?f \<in> set (map f_id (farmers db))" by (simp add: line_accepted_def)
  with tot S0 it show ?thesis by blast
qed

lemma handleCheckout_accepted:
  assumes "u \<in> set (map c_id (customers db))" and "fresh_ids db"
    and "\<forall>l\<in>set cart. line_accepted db cart l"
  shows "\<exists>db'. handleCheckout (Some u) cart db
                  = (\<lparr>alerted = PaymentProcessed (getTotalAmount cart),
                      console_error = None, cart_after = []\<rparr>, db')"
proof -
  from groups_accepted [OF assms(3)]
  have "\<exists>db'. create_orders (Some u) (ordersByFarmer cart) db = (None, db')"
    by (intro create_orders_accepted [OF assms(1,2)]) blast
  then show ?thesis by (auto simp: handleCheckout_def)
qed

lemma item_rows_of_lines:
  "item_rows_of ord (map line_item ls)
     = map (\<lambda>l. (o_id ord, l_id l, orderQuantity l, l_price_per_unit l, line_amount l)) ls"
  by (simp add: item_rows_of_def line_item_def line_amount_def)

lemma handleCheckout_rows:
  assumes "handleCheckout auth cart db = (out, db')" and "console_error out = None"
  shows "\<exists>os its.
           orders db' = orders db @ os \<and> order_items db' = order_items db @ its
           \<and> distinct (map o_farmer_id os)
           \<and> set (map o_farmer_id os) = set (map l_farmer_id cart)
           \<and> (\<forall>ord\<in>set os.
                 o_total_amount ord
                   = sum_list (map line_amount (lines_of (o_farmer_id ord) cart))
                 \<and> Some (o_customer_id ord) = auth \<and> o_status ord = pending)
           \<and> map item_columns its
               = concat (map (\<lambda>ord. item_rows_of ord
                                      (map line_item (lines_of (o_farmer_id ord) cart))) os)
           \<and> length its = length cart
           \<and> (\<forall>it\<in>set its. i_subtotal it = i_unit_price it * of_int (i_quantity it))"
proof -
  let ?gs = "ordersByFarmer cart"
  from assms have "create_orders auth ?gs db = (None, db')"
    by (auto simp: handleCheckout_def split: prod.splits option.splits)
  from create_orders_success [OF this] obtain os its where
    r: "orders db' = orders db @ os" "order_items db' = order_items db @ its"
       "list_all2 (order_of_group auth) os ?gs"
       "map item_columns its
          = concat (map (\<lambda>(ord, g). item_rows_of ord (g_items g)) (zip os ?gs))"
    by blast
  have gr: "grouped cart ?gs" by (rule grouped_ordersByFarmer)
  then have gi: "\<forall>g\<in>set ?gs. g_items g = map line_item (lines_of (g_farmer_id g) cart)
                      \<and> g_total g = to_number (sum_list (map line_amount (lines_of (g_farmer_id g) cart)))"
    by (simp add: grouped_def)
  note m = orders_match_groups [OF r(3) gi]
  from m gr have k: "distinct (map o_farmer_id os)"
    "set (map o_farmer_id os) = set (map l_farmer_id cart)"
    by (simp_all add: grouped_def)
  from m r(4) have cols: "map item_columns its
      = concat (map (\<lambda>ord. item_rows_of ord
                             (map line_item (lines_of (o_farmer_id ord) cart))) os)"
    by simp
  have "length its = length (map item_columns its)" by simp
  also have "\<dots> = sum_list (map (\<lambda>f. length (lines_of f cart)) (map o_farmer_id os))"
    unfolding cols by (rule length_item_rows)
  also have "\<dots> = length cart"
    using k by (intro length_lines_partition) simp_all
  finally have len: "length its = length cart" .
  have sub: "\<forall>it\<in>set its. i_subtotal it = i_unit_price it * of_int (i_quantity it)"
    using item_rows_subtotal [OF cols] by blast
  from r(1,2) k m cols len sub show ?thesis by blast
qed

section \<open>The authenticated user\<close>







section \<open>Claims\<close>

text \<open>
  C1 as stated fails: not every cart yields one order per farmer with one item per
  line. The second line of this cart is for a listing that is no longer in the store;
  the checkout fails, and the order of the second farmer is left without an item.
\<close>

theorem checkout_every_cart_counterexample:
  "map l_id example_partial_cart = [11, 99]
   \<and> alerted (fst (handleCheckout (Some 100) example_partial_cart example_db))
       = FailedToProcessPayment
   \<and> map o_farmer_id (orders (snd (handleCheckout (Some 100) example_partial_cart example_db)))
       = [1, 2]
   \<and> map i_fish_listing_id
       (order_items (snd (handleCheckout (Some 100) example_partial_cart example_db)))
       = [11]"
  by (simp add: checkout_defs example_defs example_partial_cart_def)

text \<open>
  C1, amended. For a customer of the store, a store whose ids in use lie below the next
  id, and a cart each of whose lines the store accepts (farmer and listing present,
  quantity positive and within \<^verbatim>\<open>integer\<close>, price positive, total of the farmer below
  \<open>10^8\<close>): \<^verbatim>\<open>handleCheckout\<close> succeeds, and it appends to \<^verbatim>\<open>orders\<close> exactly one row per
  distinct \<^verbatim>\<open>farmer_id\<close> of the cart, for this customer and \<^verbatim>\<open>pending\<close>, whose
  \<^verbatim>\<open>total_amount\<close> is the sum of \<^verbatim>\<open>price_per_unit * orderQuantity\<close> over the lines of
  that farmer, and to \<^verbatim>\<open>order_items\<close> one row per cart line, attached to the order of
  the line's farmer, with the line's listing, quantity and price and with
  \<^verbatim>\<open>subtotal = unit_price * quantity\<close>. For the cart of the specification
  that is two orders: farmer 1 with total 250 and two items, farmer 2 with total 60 and
  one item.
\<close>

theorem checkout_groups_by_farmer:
  assumes "u \<in> set (map c_id (customers db))" and "fresh_ids db"
    and "\<forall>l\<in>set cart. line_accepted db cart l"
  shows "\<exists>os its db'.
           handleCheckout (Some u) cart db
             = (\<lparr>alerted = PaymentProcessed (getTotalAmount cart), console_error = None,
                 cart_after = []\<rparr>, db')
           \<and> orders db' = orders db @ os \<and> order_items db' = order_items db @ its
           \<and> distinct (map o_farmer_id os)
           \<and> set (map o_farmer_id os) = set (map l_farmer_id cart)
           \<and> (\<forall>ord\<in>set os.
                 o_total_amount ord
                   = sum_list (map line_amount (lines_of (o_farmer_id ord) cart))
                 \<and> o_customer_id ord = u \<and> o_status ord = pending)
           \<and> map item_columns its
               = concat (map (\<lambda>ord.
                    map (\<lambda>l. (o_id ord, l_id l, orderQuantity l, l_price_per_unit l,
                               line_amount l))
                      (lines_of (o_farmer_id ord) cart)) os)
           \<and> length its = length cart
           \<and> (\<forall>it\<in>set its. i_subtotal it = i_unit_price it * of_int (i_quantity it))"
proof -
  from handleCheckout_accepted [OF assms] obtain db' where
    h: "handleCheckout (Some u) cart db
          = (\<lparr>alerted = PaymentProcessed (getTotalAmount cart), console_error = None,
              cart_after = []\<rparr>, db')"
    by blast
  from handleCheckout_rows [OF h] obtain os its where
    r: "orders db' = orders db @ os" "order_items db' = order_items db @ its"
       "distinct (map o_farmer_id os)"
       "set (map o_farmer_id os) = set (map l_farmer_id cart)"
       "\<forall>ord\<in>set os.
          o_total_amount ord = sum_list (map line_amount (lines_of (o_farmer_id ord) cart))
          \<and> Some (o_customer_id ord) = Some u \<and> o_status ord = pending"
       "map item_columns its
          = concat (map (\<lambda>ord. item_rows_of ord
                                 (map line_item (lines_of (o_farmer_id ord) cart))) os)"
       "length its = length cart"
       "\<forall>it\<in>set its. i_subtotal it = i_unit_price it * of_int (i_quantity it)"
    by auto
  from r(5) have c: "\<forall>ord\<in>set os.
          o_total_amount ord = sum_list (map line_amount (lines_of (o_farmer_id ord) cart))
          \<and> o_customer_id ord = u \<and> o_status ord = pending"
    by simp
  from r(6) have cols: "map item_columns its
               = concat (map (\<lambda>ord.
                    map (\<lambda>l. (o_id ord, l_id l, orderQuantity l, l_price_per_unit l,
                               line_amount l))
                      (lines_of (o_farmer_id ord) cart)) os)"
    by (simp add: item_rows_of_lines)
  from h r(1-4) c cols r(7,8) show ?thesis by blast
qed

theorem checkout_groups_by_farmer_witness:
  "100 \<in> set (map c_id (customers example_db)) \<and> fresh_ids example_db
   \<and> list_all (line_accepted example_db example_cart) example_cart
   \<and> console_error (fst (handleCheckout (Some 100) example_cart example_db)) = None
   \<and> map (\<lambda>ord. (o_farmer_id ord, to_number (o_total_amount ord),
                  length (filter (\<lambda>it. i_order_id it = o_id ord)
                    (order_items (snd (handleCheckout (Some 100) example_cart example_db))))))
       (orders (snd (handleCheckout (Some 100) example_cart example_db)))
      = [(1, 250, 2), (2, 60, 1)]
   \<and> map (\<lambda>it. (i_fish_listing_id it, i_quantity it, to_number (i_unit_price it),
                 to_number (i_subtotal it)))
       (order_items (snd (handleCheckout (Some 100) example_cart example_db)))
      = [(11, 2, 100, 200), (12, 1, 50, 50), (13, 3, 20, 60)]
   \<and> (\<exists>os its.
         orders (snd (handleCheckout (Some 100) example_cart example_db))
           = orders example_db @ os
         \<and> order_items (snd (handleCheckout (Some 100) example_cart example_db))
           = order_items example_db @ its
         \<and> distinct (map o_farmer_id os) \<and> length its = length example_cart)"
proof -
  have h1: "100 \<in> set (map c_id (customers example_db))" by (simp add: example_defs)
  have h2: "fresh_ids example_db" by (simp add: fresh_ids_def example_defs)
  have h3: "list_all (line_accepted example_db example_cart) example_cart"
    by (simp add: line_accepted_def lines_of_def line_amount_def example_defs)
  then have h3': "\<forall>l\<in>set example_cart. line_accepted example_db example_cart l"
    by (simp add: list_all_iff)
  have e: "console_error (fst (handleCheckout (Some 100) example_cart example_db)) = None"
    by (simp add: checkout_defs example_defs)
  have o: "map (\<lambda>ord. (o_farmer_id ord, to_number (o_total_amount ord),
                  length (filter (\<lambda>it. i_order_id it = o_id ord)
                    (order_items (snd (handleCheckout (Some 100) example_cart example_db))))))
       (orders (snd (handleCheckout (Some 100) example_cart example_db)))
      = [(1, 250, 2), (2, 60, 1)]"
    by (simp add: checkout_defs example_defs)
  have i: "map (\<lambda>it. (i_fish_listing_id it, i_quantity it, to_number (i_unit_price it),
                 to_number (i_subtotal it)))
       (order_items (snd (handleCheckout (Some 100) example_cart example_db)))
      = [(11, 2, 100, 200), (12, 1, 50, 50), (13, 3, 20, 60)]"
    by (simp add: checkout_defs example_defs)
  from checkout_groups_by_farmer [OF h1 h2 h3'] obtain os its db' where
    "handleCheckout (Some 100) example_cart example_db
       = (\<lparr>alerted = PaymentProcessed (getTotalAmount example_cart), console_error = None,
           cart_after = []\<rparr>, db')"
    "orders db' = orders example_db @ os" "order_items db' = order_items example_db @ its"
    "distinct (map o_farmer_id os)" "length its = length example_cart"
    by blast
  then have "\<exists>os its.
         orders (snd (handleCheckout (Some 100) example_cart example_db))
           = orders example_db @ os
         \<and> order_items (snd (handleCheckout (Some 100) example_cart example_db))
           = order_items example_db @ its
         \<and> distinct (map o_farmer_id os) \<and> length its = length example_cart"
    by (simp only: snd_conv) blast
  with h1 h2 h3 e o i show ?thesis by blast
qed

text \<open>
  C2 as stated fails: the order row is written by one statement and the items by a
  second one; when the second is refused the first is not undone.
\<close>

theorem createOrder_atomicity_counterexample:
  "fst (createOrder (Some 100) example_stale_order example_db)
     = Inl (Rejected (ForeignKeyViolation ''order_items''
                       ''order_items_fish_listing_id_fkey'' (KeyUuid 99)))
   \<and> map o_farmer_id (orders (snd (createOrder (Some 100) example_stale_order example_db)))
       = [1]
   \<and> orders example_db = []
   \<and> order_items (snd (createOrder (Some 100) example_stale_order example_db)) = []"
  by (simp add: checkout_defs example_defs example_stale_order_def)

text \<open>
  C2, amended. \<^verbatim>\<open>createOrder\<close> has three outcomes: it throws and nothing was written;
  it throws after the order row was written, and the order row stays in the store with
  none of its items; or it returns and the order row with all its items is in the
  store. The items of one order are written by one statement, all or none.
\<close>

theorem createOrder_two_statements:
  assumes "createOrder auth od db = (r, db')"
  shows "(\<exists>e. r = Inl e \<and> orders db' = orders db \<and> order_items db' = order_items db)
       \<or> (\<exists>e ord. r = Inl (Rejected e) \<and> orders db' = orders db @ [ord]
             \<and> order_items db' = order_items db)
       \<or> (\<exists>ord its. r = Inr (ord, its) \<and> orders db' = orders db @ [ord]
             \<and> order_items db' = order_items db @ its
             \<and> map item_columns its = item_rows_of ord (items od))"
proof (cases auth)
  case None
  with assms show ?thesis by (auto simp: createOrder_def)
next
  case (Some u)
  from createOrder_outcomes [OF assms [unfolded Some]] show ?thesis
    by (elim disjE exE conjE) (simp_all add: item_rows_of_def)
qed

theorem createOrder_two_statements_witness:
  "(\<exists>e ord. fst (createOrder (Some 100) example_stale_order example_db) = Inl (Rejected e)
       \<and> orders (snd (createOrder (Some 100) example_stale_order example_db))
           = orders example_db @ [ord]
       \<and> order_items (snd (createOrder (Some 100) example_stale_order example_db))
           = order_items example_db)
   \<and> length (orders (snd (createOrder (Some 100) example_stale_order example_db))) = 1"
proof -
  obtain r db' where h: "createOrder (Some 100) example_stale_order example_db = (r, db')"
    by (cases "createOrder (Some 100) example_stale_order example_db")
  have 1: "fst (createOrder (Some 100) example_stale_order example_db)
             = Inl (Rejected (ForeignKeyViolation ''order_items''
                               ''order_items_fish_listing_id_fkey'' (KeyUuid 99)))"
    by (simp add: checkout_defs example_defs example_stale_order_def)
  have 2: "length (orders (snd (createOrder (Some 100) example_stale_order example_db))) = 1"
    by (simp add: checkout_defs example_defs example_stale_order_def)
  have 3: "orders example_db = []" by (simp add: example_defs)
  from createOrder_two_statements [OF h] h 1 2 3 show ?thesis
    by (simp only: fst_conv snd_conv) auto
qed

text \<open>
  C3 as stated fails. On a store from which the second farmer was removed, the checkout
  of a cart with a line of the first farmer followed by a line of the second commits
  the order of the first farmer and then fails; the checkout of the same two lines in
  the other order fails on its first group and commits nothing. Both show the same
  alert and log the same error, and both keep their cart: nothing that is reported says
  that an order was committed in the first run.
\<close>

theorem partial_failure_counterexample:
  "alerted (fst (handleCheckout (Some 100) example_two_farmer_cart
                  example_db_without_farmer2))
     = FailedToProcessPayment
   \<and> alerted (fst (handleCheckout (Some 100) (rev example_two_farmer_cart)
                      example_db_without_farmer2))
       = FailedToProcessPayment
   \<and> console_error (fst (handleCheckout (Some 100) example_two_farmer_cart
                            example_db_without_farmer2))
       = Some (Rejected (ForeignKeyViolation ''orders'' ''orders_farmer_id_fkey''
                           (KeyUuid 2)))
   \<and> console_error (fst (handleCheckout (Some 100) (rev example_two_farmer_cart)
                            example_db_without_farmer2))
       = Some (Rejected (ForeignKeyViolation ''orders'' ''orders_farmer_id_fkey''
                           (KeyUuid 2)))
   \<and> cart_after (fst (handleCheckout (Some 100) example_two_farmer_cart
                         example_db_without_farmer2))
       = example_two_farmer_cart
   \<and> cart_after (fst (handleCheckout (Some 100) (rev example_two_farmer_cart)
                         example_db_without_farmer2))
       = rev example_two_farmer_cart
   \<and> map o_farmer_id
       (orders (snd (handleCheckout (Some 100) example_two_farmer_cart
                       example_db_without_farmer2)))
       = [1]
   \<and> map i_fish_listing_id
       (order_items (snd (handleCheckout (Some 100) example_two_farmer_cart
                            example_db_without_farmer2)))
       = [11]
   \<and> orders (snd (handleCheckout (Some 100) (rev example_two_farmer_cart)
                     example_db_without_farmer2))
       = []
   \<and> order_items (snd (handleCheckout (Some 100) (rev example_two_farmer_cart)
                          example_db_without_farmer2))
       = []"
  by (simp add: checkout_defs example_defs example_two_farmer_cart_def
      example_db_without_farmer2_def)

text \<open>
  C3, amended. When a checkout fails, the groups split into those before the failing
  one, the failing one and the rest. Every group before it has its order and its items
  in the store, and they stay there; the store after the checkout is the store right
  after the failed \<^verbatim>\<open>createOrder\<close>, which wrote no item and at most the order of the
  failing group, so no group of the rest has an order. What is reported is the alert
  \<^verbatim>\<open>Failed to process payment\<close>, the error of the failed \<^verbatim>\<open>createOrder\<close> on the console
  and the cart unchanged, and nothing else.
\<close>

theorem checkout_stops_at_first_failure:
  assumes "handleCheckout auth cart db = (out, db')" and "console_error out = Some e"
  shows "\<exists>pre g post db1 os its.
           ordersByFarmer cart = pre @ g # post
           \<and> create_orders auth pre db = (None, db1)
           \<and> orders db1 = orders db @ os \<and> order_items db1 = order_items db @ its
           \<and> list_all2 (order_of_group auth) os pre
           \<and> map item_columns its
               = concat (map (\<lambda>(ord, g). item_rows_of ord (g_items g)) (zip os pre))
           \<and> createOrder auth (order_data_of g) db1 = (Inl e, db')
           \<and> order_items db' = order_items db1
           \<and> (orders db' = orders db1
                \<or> (\<exists>ord. orders db' = orders db1 @ [ord] \<and> o_farmer_id ord = g_farmer_id g))
           \<and> (\<forall>h\<in>set post. g_farmer_id h
                  \<notin> set (map o_farmer_id (drop (length (orders db)) (orders db'))))
           \<and> out = \<lparr>alerted = FailedToProcessPayment, console_error = Some e,
                     cart_after = cart\<rparr>"
proof -
  let ?gs = "ordersByFarmer cart"
  from assms have c: "create_orders auth ?gs db = (Some e, db')"
    and out: "out = \<lparr>alerted = FailedToProcessPayment, console_error = Some e,
                      cart_after = cart\<rparr>"
    by (auto simp: handleCheckout_def split: prod.splits option.splits)
  from create_orders_failure [OF c] obtain pre g post db1 where
    d: "?gs = pre @ g # post" "create_orders auth pre db = (None, db1)"
       "createOrder auth (order_data_of g) db1 = (Inl e, db')"
    by blast
  from create_orders_success [OF d(2)] obtain os its where
    s: "orders db1 = orders db @ os" "order_items db1 = order_items db @ its"
       "list_all2 (order_of_group auth) os pre"
       "map item_columns its
          = concat (map (\<lambda>(ord, g). item_rows_of ord (g_items g)) (zip os pre))"
    by blast
  from createOrder_Inl [OF d(3)] have
    f: "order_items db' = order_items db1"
       "orders db' = orders db1
        \<or> (\<exists>ord. orders db' = orders db1 @ [ord] \<and> o_farmer_id ord = g_farmer_id g)"
    by auto
  have "distinct (map g_farmer_id ?gs)"
    using grouped_ordersByFarmer [of cart] by (simp add: grouped_def)
  with d(1) have dis: "\<forall>h\<in>set post. g_farmer_id h \<notin> set (map g_farmer_id pre)
                          \<and> g_farmer_id h \<noteq> g_farmer_id g"
    by (auto simp: image_iff)
  have k: "map o_farmer_id os = map g_farmer_id pre" by (rule order_of_group_farmers [OF s(3)])
  then have "set (map o_farmer_id os) = set (map g_farmer_id pre)" by simp
  then have ks: "o_farmer_id ` set os = g_farmer_id ` set pre" by simp
  from f(2) s(1) have "drop (length (orders db)) (orders db') = os
      \<or> (\<exists>ord. drop (length (orders db)) (orders db') = os @ [ord]
                 \<and> o_farmer_id ord = g_farmer_id g)"
    by auto
  then have "set (map o_farmer_id (drop (length (orders db)) (orders db')))
          \<subseteq> set (map g_farmer_id pre) \<union> {g_farmer_id g}"
  proof (elim disjE exE conjE)
    assume "drop (length (orders db)) (orders db') = os"
    then show ?thesis using k by auto
  next
    fix ord
    assume "drop (length (orders db)) (orders db') = os @ [ord]"
      "o_farmer_id ord = g_farmer_id g"
    then show ?thesis using k by simp
  qed
  with dis have rest: "\<forall>h\<in>set post. g_farmer_id h
                  \<notin> set (map o_farmer_id (drop (length (orders db)) (orders db')))"
    by blast
  from d s f rest out show ?thesis by blast
qed

theorem checkout_stops_at_first_failure_witness:
  "console_error (fst (handleCheckout (Some 100) example_partial_cart example_db))
     = Some (Rejected (ForeignKeyViolation ''order_items''
          ''order_items_fish_listing_id_fkey'' (KeyUuid 99)))
   \<and> fst (handleCheckout (Some 100) example_partial_cart example_db)
       = \<lparr>alerted = FailedToProcessPayment,
          console_error = Some (Rejected (ForeignKeyViolation ''order_items''
          ''order_items_fish_listing_id_fkey'' (KeyUuid 99))),
          cart_after = example_partial_cart\<rparr>
   \<and> (\<exists>pre g post db1.
         ordersByFarmer example_partial_cart = pre @ g # post
         \<and> create_orders (Some 100) pre example_db = (None, db1)
         \<and> createOrder (Some 100) (order_data_of g) db1
              = (Inl (Rejected (ForeignKeyViolation ''order_items''
          ''order_items_fish_listing_id_fkey'' (KeyUuid 99))),
                 snd (handleCheckout (Some 100) example_partial_cart example_db)))
   \<and> map o_farmer_id (orders (snd (handleCheckout (Some 100) example_partial_cart example_db)))
       = [1, 2]"
proof -
  obtain out db' where
    h: "handleCheckout (Some 100) example_partial_cart example_db = (out, db')"
    by (cases "handleCheckout (Some 100) example_partial_cart example_db")
  have e: "console_error (fst (handleCheckout (Some 100) example_partial_cart example_db))
             = Some (Rejected (ForeignKeyViolation ''order_items''
          ''order_items_fish_listing_id_fkey'' (KeyUuid 99)))"
    by (simp add: checkout_defs example_defs example_partial_cart_def)
  with h have n: "console_error out = Some (Rejected (ForeignKeyViolation ''order_items''
          ''order_items_fish_listing_id_fkey'' (KeyUuid 99)))" by simp
  have o: "map o_farmer_id
             (orders (snd (handleCheckout (Some 100) example_partial_cart example_db)))
           = [1, 2]"
    by (simp add: checkout_defs example_defs example_partial_cart_def)
  from checkout_stops_at_first_failure [OF h n] h e o show ?thesis
    by (simp only: fst_conv snd_conv) blast
qed

text \<open>
  C4 as stated fails: the table has \<^verbatim>\<open>CHECK (subtotal > 0)\<close> and no constraint that
  relates \<^verbatim>\<open>subtotal\<close> to \<^verbatim>\<open>quantity\<close> and \<^verbatim>\<open>unit_price\<close>; \<^verbatim>\<open>createOrder\<close> stores the
  subtotal that its caller passes.
\<close>

theorem subtotal_constraint_counterexample:
  "map i_quantity (order_items (snd (createOrder (Some 100) example_mispriced_order example_db)))
     = [2]
   \<and> map (to_number \<circ> i_unit_price)
       (order_items (snd (createOrder (Some 100) example_mispriced_order example_db)))
     = [100]
   \<and> map (to_number \<circ> i_subtotal)
       (order_items (snd (createOrder (Some 100) example_mispriced_order example_db)))
     = [1]"
  by (simp add: checkout_defs example_defs example_mispriced_order_def)

text \<open>
  C4, amended. The store enforces \<^verbatim>\<open>quantity > 0\<close>, \<^verbatim>\<open>unit_price > 0\<close> and
  \<^verbatim>\<open>subtotal > 0\<close> on every row of \<^verbatim>\<open>order_items\<close>: \<^verbatim>\<open>createOrder\<close>,
  \<^verbatim>\<open>handleCheckout\<close> and \<^verbatim>\<open>deleteFishListing\<close>, the functions that change the table,
  keep these true of the whole table. The equality
  \<^verbatim>\<open>subtotal = unit_price * quantity\<close> is computed by \<^verbatim>\<open>handleCheckout\<close>: it holds of
  every row that a checkout writes, also when the checkout fails part-way.
\<close>

theorem order_item_checks_kept:
  assumes "list_all item_checks (order_items db)"
  shows "list_all item_checks (order_items (snd (createOrder auth od db)))
       \<and> list_all item_checks (order_items (snd (handleCheckout auth cart db)))
       \<and> list_all item_checks (order_items (snd (deleteFishListing auth i db)))
       \<and> list_all item_priced
           (drop (length (order_items db)) (order_items (snd (handleCheckout auth cart db))))"
proof -
  have d: "list_all item_checks (order_items (snd (deleteFishListing auth i db)))"
    using assms by (simp add: deleteFishListing_def Let_def list_all_iff)
  obtain r db1 where 1: "createOrder auth od db = (r, db1)"
    by (cases "createOrder auth od db")
  from createOrder_items [OF 1] assms
  have a: "list_all item_checks (order_items (snd (createOrder auth od db)))"
    using 1 by auto
  obtain r2 db2 where 2: "create_orders auth (ordersByFarmer cart) db = (r2, db2)"
    by (cases "create_orders auth (ordersByFarmer cart) db")
  then have s: "snd (handleCheckout auth cart db) = db2"
    by (simp add: handleCheckout_def split: option.splits)
  from create_orders_items [OF 2 ordersByFarmer_priced] obtain its where
    "order_items db2 = order_items db @ its" "list_all item_checks its"
    "list_all item_priced its"
    by blast
  with assms s a d show ?thesis by simp
qed

theorem order_item_checks_kept_witness:
  "list_all item_checks (order_items example_db)
   \<and> list_all item_checks
       (order_items (snd (handleCheckout (Some 100) example_cart example_db)))
   \<and> list_all item_priced
       (drop (length (order_items example_db))
          (order_items (snd (handleCheckout (Some 100) example_cart example_db))))
   \<and> map (to_number \<circ> i_subtotal)
       (order_items (snd (handleCheckout (Some 100) example_cart example_db)))
       = [200, 50, 60]"
proof -
  have h: "list_all item_checks (order_items example_db)" by (simp add: example_defs)
  have e: "map (to_number \<circ> i_subtotal)
             (order_items (snd (handleCheckout (Some 100) example_cart example_db)))
           = [200, 50, 60]"
    by (simp add: checkout_defs example_defs)
  from order_item_checks_kept [OF h, of "Some 100" example_mispriced_order example_cart 11]
    h e
  show ?thesis by simp
qed

text \<open>
  C5. An inactive listing owned by farmer \<open>F\<close>: a \<^verbatim>\<open>SELECT\<close> on \<^verbatim>\<open>fish_listings\<close> as
  \<open>F\<close> returns it, and so does \<^verbatim>\<open>getFarmerListings\<close> called by \<open>F\<close>. For every other
  authenticated principal \<open>P\<close> the \<^verbatim>\<open>SELECT\<close> omits the row, and \<^verbatim>\<open>getFarmerListings\<close>
  and \<^verbatim>\<open>getFishListings\<close> return their rows without it and without an error.
\<close>

theorem inactive_listing_visibility:
  assumes "l \<in> set (fish_listings db)" and "l_is_active l = False" and "l_farmer_id l = F"
  shows "l \<in> set (select_fish_listings (Some F) db)
       \<and> (\<exists>rows. getFarmerListings (Some F) db = Inr (Inr rows) \<and> l \<in> set rows)
       \<and> (\<forall>P. P \<noteq> F \<longrightarrow>
             l \<notin> set (select_fish_listings (Some P) db)
             \<and> (\<exists>rows. getFarmerListings (Some P) db = Inr (Inr rows) \<and> l \<notin> set rows)
             \<and> (\<exists>rows. getFishListings (Some P) db = Inr rows
                   \<and> l \<notin> set (map fish_listing.truncate rows)))"
proof -
  from assms have own: "l \<in> set (select_fish_listings (Some F) db)"
    by (simp add: select_fish_listings_iff)
  with assms(3) have feed:
    "\<exists>rows. getFarmerListings (Some F) db = Inr (Inr rows) \<and> l \<in> set rows"
    by (simp add: getFarmerListings_def)
  have other: "l \<notin> set (select_fish_listings (Some P) db)
       \<and> (\<exists>rows. getFarmerListings (Some P) db = Inr (Inr rows) \<and> l \<notin> set rows)
       \<and> (\<exists>rows. getFishListings (Some P) db = Inr rows
             \<and> l \<notin> set (map fish_listing.truncate rows))"
    if "P \<noteq> F" for P
  proof -
    from that assms have 1: "l \<notin> set (select_fish_listings (Some P) db)"
      by (simp add: select_fish_listings_iff)
    then have 2: "\<exists>rows. getFarmerListings (Some P) db = Inr (Inr rows) \<and> l \<notin> set rows"
      by (simp add: getFarmerListings_def)
    from getFishListings_rows [of "Some P" db] obtain rows where
      "getFishListings (Some P) db = Inr rows"
      "map fish_listing.truncate rows
         = order_created_at_desc l_created_at
             (filter (\<lambda>l. l_is_active l = True) (select_fish_listings (Some P) db))"
      by blast
    moreover from this(2) 1 have "l \<notin> set (map fish_listing.truncate rows)"
      by (simp only: set_order_created_at_desc set_filter) simp
    ultimately have 3: "\<exists>rows. getFishListings (Some P) db = Inr rows
             \<and> l \<notin> set (map fish_listing.truncate rows)"
      by blast
    from 1 2 3 show ?thesis by blast
  qed
  from own feed other show ?thesis by blast
qed

theorem inactive_listing_visibility_witness:
  "listing_row 12 1 5000 False 3 \<in> set (fish_listings example_db_inactive)
   \<and> l_is_active (listing_row 12 1 5000 False 3) = False
   \<and> l_farmer_id (listing_row 12 1 5000 False 3) = 1
   \<and> getFarmerListings (Some 1) example_db_inactive
       = Inr (Inr [listing_row 12 1 5000 False 3, listing_row 11 1 10000 True 2])
   \<and> listing_row 12 1 5000 False 3 \<notin> set (select_fish_listings (Some 2) example_db_inactive)
   \<and> listing_row 12 1 5000 False 3 \<notin> set (select_fish_listings (Some 100) example_db_inactive)
   \<and> map l_id (projr (getFishListings (Some 100) example_db_inactive)) = [13, 11]"
proof -
  have 1: "listing_row 12 1 5000 False 3 \<in> set (fish_listings example_db_inactive)"
    by (simp add: example_db_inactive_def)
  have 2: "l_is_active (listing_row 12 1 5000 False 3) = False" by (simp add: listing_row_def)
  have 3: "l_farmer_id (listing_row 12 1 5000 False 3) = 1" by (simp add: listing_row_def)
  have 4: "getFarmerListings (Some 1) example_db_inactive
       = Inr (Inr [listing_row 12 1 5000 False 3, listing_row 11 1 10000 True 2])"
    by (simp add: getFarmerListings_def select_fish_listings_def fish_listings_select_def
        fish_listings_manage_def order_created_at_desc_def example_db_inactive_def
        listing_row_def)
  have 5: "map l_id (projr (getFishListings (Some 100) example_db_inactive)) = [13, 11]"
    by (simp add: getFishListings_def select_fish_listings_def fish_listings_select_def
        fish_listings_manage_def order_created_at_desc_def example_db_inactive_def
        listing_row_def fish_listing.extend_def comp_def)
  from inactive_listing_visibility [OF 1 2 3] 1 2 3 4 5 show ?thesis by simp
qed

text \<open>
  C6. The \<^verbatim>\<open>farmer\<close> attached to a row of the catalog is the projection of the owning
  farmer row on \<^verbatim>\<open>full_name\<close>, \<^verbatim>\<open>company_name\<close>, \<^verbatim>\<open>unique_code\<close>, \<^verbatim>\<open>city\<close> and
  \<^verbatim>\<open>state\<close>: two stores with the same listings whose farmer rows agree up to \<^verbatim>\<open>phone\<close>
  and \<^verbatim>\<open>email\<close> give the same result of \<^verbatim>\<open>getFishListings\<close>, for every caller. A
  \<^verbatim>\<open>SELECT\<close> on \<^verbatim>\<open>farmers\<close> by an authenticated principal returns every farmer row
  whole, \<^verbatim>\<open>phone\<close> and \<^verbatim>\<open>email\<close> included.
\<close>

theorem catalog_hides_contact:
  assumes "fish_listings db = fish_listings db'"
    and "map hide_contact (farmers db) = map hide_contact (farmers db')"
  shows "getFishListings auth db = getFishListings auth db'
       \<and> select_farmers (Some P) db = farmers db
       \<and> select_farmers (Some P) db' = farmers db'"
proof -
  have "getFishListings auth db
          = getFishListings auth (db\<lparr>farmers := map hide_contact (farmers db)\<rparr>)"
    by (rule getFishListings_hide_contact [symmetric])
  also have "\<dots> = getFishListings auth (db'\<lparr>farmers := map hide_contact (farmers db')\<rparr>)"
    using assms
    by (simp add: getFishListings_def select_farmers_def select_fish_listings_def)
  also have "\<dots> = getFishListings auth db'" by (rule getFishListings_hide_contact)
  finally have "getFishListings auth db = getFishListings auth db'" .
  then show ?thesis by (simp add: select_farmers_def farmers_select_def)
qed

theorem catalog_hides_contact_witness:
  "fish_listings example_db = fish_listings example_db_other_contact
   \<and> map hide_contact (farmers example_db) = map hide_contact (farmers example_db_other_contact)
   \<and> getFishListings (Some 100) example_db = getFishListings (Some 100) example_db_other_contact
   \<and> map (map_option full_name \<circ> farmer) (projr (getFishListings (Some 100) example_db))
       = [Some ''Bayo'', Some ''Ada'', Some ''Ada'']
   \<and> map f_phone (select_farmers (Some 100) example_db) = [''0801'', ''0803'']
   \<and> map f_phone (select_farmers (Some 100) example_db_other_contact) = [''0999'', ''0803'']"
proof -
  have 1: "fish_listings example_db = fish_listings example_db_other_contact"
    by (simp add: example_db_other_contact_def)
  have 2: "map hide_contact (farmers example_db)
             = map hide_contact (farmers example_db_other_contact)"
    by (simp add: example_db_other_contact_def example_db_def farmer_row_def hide_contact_def)
  have 3: "map (map_option full_name \<circ> farmer) (projr (getFishListings (Some 100) example_db))
       = [Some ''Bayo'', Some ''Ada'', Some ''Ada'']"
    by (simp add: getFishListings_def select_fish_listings_def fish_listings_select_def
        fish_listings_manage_def select_farmers_def farmers_select_def
        order_created_at_desc_def farmer_projection_def fish_listing.extend_def
        listing_with_farmer.fields_def example_defs)
  have 4: "map f_phone (select_farmers (Some 100) example_db) = [''0801'', ''0803'']"
    by (simp add: select_farmers_def farmers_select_def example_defs)
  have 5: "map f_phone (select_farmers (Some 100) example_db_other_contact)
             = [''0999'', ''0803'']"
    by (simp add: select_farmers_def farmers_select_def example_db_other_contact_def
        example_defs)
  from catalog_hides_contact [OF 1 2, of "Some 100" 100] 1 2 3 4 5 show ?thesis by simp
qed

text \<open>
  C7. Order placement never modifies a FishListing row: whatever the user, the cart and
  the store, the table \<^verbatim>\<open>fish_listings\<close> after \<^verbatim>\<open>handleCheckout\<close> is the table before
  it, row for row and field for field; in particular no \<^verbatim>\<open>quantity\<close> is reduced.
\<close>

theorem checkout_keeps_fish_listings:
  "fish_listings (snd (handleCheckout auth cart db)) = fish_listings db"
  using handleCheckout_fish_listings [of auth cart db]
  by (cases "handleCheckout auth cart db") simp

theorem checkout_keeps_fish_listings_witness:
  "fish_listings (snd (handleCheckout (Some 100) example_cart example_db))
     = fish_listings example_db
   \<and> map l_quantity (fish_listings (snd (handleCheckout (Some 100) example_cart example_db)))
     = [10, 10, 10]
   \<and> length (orders (snd (handleCheckout (Some 100) example_cart example_db))) = 2"
  using checkout_keeps_fish_listings [of "Some 100" example_cart example_db]
  by (simp add: checkout_defs example_defs)

text \<open>
  C8. A farmer inserts their own row (the policy of \<^verbatim>\<open>farmers\<close> admits no other), with
  an \<^verbatim>\<open>id\<close> and an \<^verbatim>\<open>email\<close> that no stored row has, and with \<^verbatim>\<open>unique_code\<close> \<^verbatim>\<open>NULL\<close> or
  empty. Provided every value of \<^verbatim>\<open>floor(random() * m)\<close> lies in \<open>[0, m)\<close> and some turn of
  the loop produces a candidate that no farmer has, the insert returns and stores the
  row with a generated code in place of the missing one. That code is not empty, has
  the format \<^verbatim>\<open>FSH\<close> + three digits + three upper-case letters, is the candidate of the
  first turn whose candidate no stored farmer has (every earlier candidate collided
  and was retried), and is the code of no row stored before.
\<close>

theorem farmer_code_assigned:
  assumes "f_unique_code NEW = None \<or> f_unique_code NEW = Some ''''"
    and "\<forall>i. 0 \<le> floor_random i 1000 \<and> floor_random i 1000 < 1000
             \<and> 0 \<le> floor_random i 26 \<and> floor_random i 26 < 26"
    and "\<exists>k. Some (candidate_code floor_random (4 * k))
               \<notin> set (map f_unique_code (farmers db))"
    and "auth = Some (f_id NEW)"
    and "f_id NEW \<notin> set (map f_id (farmers db))"
    and "f_email NEW \<notin> set (map f_email (farmers db))"
  shows "\<exists>code k.
           insert_farmer floor_random auth NEW db
             = Some (Inr (NEW\<lparr>f_unique_code := Some code\<rparr>),
                     db\<lparr>farmers := farmers db @ [NEW\<lparr>f_unique_code := Some code\<rparr>]\<rparr>)
           \<and> code \<noteq> '''' \<and> is_farmer_code code
           \<and> code = candidate_code floor_random (4 * k)
           \<and> (\<forall>j<k. Some (candidate_code floor_random (4 * j))
                       \<in> set (map f_unique_code (farmers db)))
           \<and> Some code \<notin> set (map f_unique_code (farmers db))"
proof -
  let ?codes = "map f_unique_code (farmers db)"
  from first_free_candidate [OF assms(3)] obtain k where
    free: "Some (candidate_code floor_random (4 * k)) \<notin> set ?codes" and
    taken: "\<forall>j<k. Some (candidate_code floor_random (4 * j)) \<in> set ?codes"
    by blast
  let ?code = "candidate_code floor_random (4 * k)"
  let ?row = "NEW\<lparr>f_unique_code := Some ?code\<rparr>"
  have "generate_loop floor_random ?codes 0 = Some ?code"
    using generate_loop_first_free [of floor_random 0 k ?codes] free taken by simp
  with assms(1,4) have trig: "set_farmer_code floor_random auth db NEW = Some ?row"
    by (simp add: set_farmer_code_def generate_farmer_code_def
        select_farmers_authenticated)
  have fmt: "is_farmer_code ?code" by (rule candidate_code_format [OF assms(2)])
  have ins: "insert_farmer floor_random auth NEW db
               = Some (Inr ?row, db\<lparr>farmers := farmers db @ [?row]\<rparr>)"
    using assms(4,5,6) free by (intro insert_farmer_accepted [OF trig]) simp_all
  from ins fmt is_farmer_code_nonempty [OF fmt] free taken show ?thesis by blast
qed

theorem farmer_code_assigned_witness:
  "(f_unique_code example_new_farmer = None \<or> f_unique_code example_new_farmer = Some '''')
   \<and> Some (candidate_code example_floor_random 0)
        \<in> set (map f_unique_code (farmers example_db))
   \<and> insert_farmer example_floor_random (Some 3) example_new_farmer example_db
       = Some (Inr (example_new_farmer\<lparr>f_unique_code := Some ''FSH500NNN''\<rparr>),
               example_db\<lparr>farmers := farmers example_db
                  @ [example_new_farmer\<lparr>f_unique_code := Some ''FSH500NNN''\<rparr>]\<rparr>)
   \<and> is_farmer_code ''FSH500NNN''
   \<and> Some ''FSH500NNN'' \<notin> set (map f_unique_code (farmers example_db))"
proof -
  have h1: "f_unique_code example_new_farmer = None
            \<or> f_unique_code example_new_farmer = Some ''''"
    by (simp add: example_new_farmer_def farmer_row_def)
  have r: "\<And>i. 0 \<le> example_random i \<and> example_random i < 1"
    by (simp add: example_random_def)
  have h2: "\<forall>i. 0 \<le> example_floor_random i 1000 \<and> example_floor_random i 1000 < 1000
              \<and> 0 \<le> example_floor_random i 26 \<and> example_floor_random i 26 < 26"
    using floor_unit_interval [of "example_random i" 1000 for i]
      floor_unit_interval [of "example_random i" 26 for i] r
    by (simp add: example_floor_random_def)
  have c0: "Some (candidate_code example_floor_random 0)
              \<in> set (map f_unique_code (farmers example_db))"
    by code_simp
  have "Some (candidate_code example_floor_random (4 * 1))
          \<notin> set (map f_unique_code (farmers example_db))"
    by code_simp
  then have h3: "\<exists>k. Some (candidate_code example_floor_random (4 * k))
                   \<notin> set (map f_unique_code (farmers example_db))"
    by (rule exI)
  have h4: "Some 3 = Some (f_id example_new_farmer)"
    by (simp add: example_new_farmer_def farmer_row_def)
  have h5: "f_id example_new_farmer \<notin> set (map f_id (farmers example_db))"
    by (simp add: example_new_farmer_def example_defs)
  have h6: "f_email example_new_farmer \<notin> set (map f_email (farmers example_db))"
    by (simp add: example_new_farmer_def example_defs)
  from farmer_code_assigned [OF h1 h2 h3 h4 h5 h6] obtain code where
    i: "insert_farmer example_floor_random (Some 3) example_new_farmer example_db
          = Some (Inr (example_new_farmer\<lparr>f_unique_code := Some code\<rparr>),
                  example_db\<lparr>farmers := farmers example_db
                     @ [example_new_farmer\<lparr>f_unique_code := Some code\<rparr>]\<rparr>)"
    and f: "is_farmer_code code"
    and n: "Some code \<notin> set (map f_unique_code (farmers example_db))"
    by blast
  have "map_option (map_sum id f_unique_code \<circ> fst)
          (insert_farmer example_floor_random (Some 3) example_new_farmer example_db)
        = Some (Inr (Some ''FSH500NNN''))"
    by code_simp
  with i have "code = ''FSH500NNN''" by simp
  with i f n h1 c0 show ?thesis by simp
qed

text \<open>
  C9 as stated fails: \<^verbatim>\<open>deleteFishListing\<close> by a principal who does not own the listing
  returns no error (row-level security skips the row), and \<^verbatim>\<open>updateFishListing\<close> reports
  that no row came back.
\<close>

theorem foreign_listing_counterexample:
  "fst (deleteFishListing (Some 2) 11 example_db) = Inr ()
   \<and> fst (updateFishListing (Some 2) 11 example_updates example_db) = Inl NoSingleRow
   \<and> map l_farmer_id (fish_listings example_db) = [1, 1, 2]
   \<and> map l_id (fish_listings example_db) = [11, 12, 13]"
  by (simp add: deleteFishListing_def updateFishListing_def select_fish_listings_def
      fish_listings_select_def fish_listings_manage_def Let_def example_defs)

text \<open>
  C9, amended. For every principal \<open>P\<close> and every listing id whose row is not owned by
  \<open>P\<close>: \<^verbatim>\<open>updateFishListing\<close> by \<open>P\<close> returns the error of \<^verbatim>\<open>.single()\<close> (no row), whatever
  the update; \<^verbatim>\<open>deleteFishListing\<close> by \<open>P\<close> returns no error; an \<^verbatim>\<open>INSERT\<close> by \<open>P\<close> of a
  listing with another \<^verbatim>\<open>farmer_id\<close> is refused: by row-level security, unless the
  quantity or the price does not fit its column, which is then the error. In all three
  cases the store is left exactly as it was.
\<close>

theorem foreign_listing_unchanged:
  assumes "\<forall>l\<in>set (fish_listings db). l_id l = i \<longrightarrow> l_farmer_id l \<noteq> P"
  shows "updateFishListing (Some P) i updates db = (Inl NoSingleRow, db)
       \<and> deleteFishListing (Some P) i db = (Inr (), db)
       \<and> (fid \<noteq> P \<longrightarrow>
            insert_fish_listing (Some P) fid ld db
              = (Inl (case int4 (ld_quantity ld) of
                        Inl e \<Rightarrow> e
                      | Inr q \<Rightarrow>
                          (case numeric_10_2 (ld_price_per_unit ld) of
                             Inl e \<Rightarrow> e
                           | Inr p \<Rightarrow> RlsViolation ''fish_listings'')), db))"
proof -
  from assms have none:
    "filter (\<lambda>l. l_id l = i \<and> fish_listings_manage (Some P) l)
       (select_fish_listings (Some P) db) = []"
    by (auto simp: filter_empty_conv select_fish_listings_def fish_listings_manage_def)
  then have u: "updateFishListing (Some P) i updates db = (Inl NoSingleRow, db)"
    by (simp add: updateFishListing_def)
  from none have d: "deleteFishListing (Some P) i db = (Inr (), db)"
    by (simp add: deleteFishListing_def)
  have c: "insert_fish_listing (Some P) fid ld db
             = (Inl (case int4 (ld_quantity ld) of
                       Inl e \<Rightarrow> e
                     | Inr q \<Rightarrow>
                         (case numeric_10_2 (ld_price_per_unit ld) of
                            Inl e \<Rightarrow> e
                          | Inr p \<Rightarrow> RlsViolation ''fish_listings'')), db)"
    if "fid \<noteq> P"
    using that
    by (simp add: insert_fish_listing_def Let_def fish_listings_manage_def
        split: sum.splits)
  from u d c show ?thesis by blast
qed

theorem foreign_listing_unchanged_witness:
  "map l_farmer_id (filter (\<lambda>l. l_id l = 11) (fish_listings example_db)) = [1]
   \<and> updateFishListing (Some 2) 11 example_updates example_db = (Inl NoSingleRow, example_db)
   \<and> deleteFishListing (Some 2) 11 example_db = (Inr (), example_db)
   \<and> insert_fish_listing (Some 2) 1 example_listing_data example_db
       = (Inl (RlsViolation ''fish_listings''), example_db)
   \<and> map l_price_per_unit
       (fish_listings (snd (updateFishListing (Some 1) 11 example_updates example_db)))
       = [100, 5000, 2000]"
proof -
  have h: "\<forall>l\<in>set (fish_listings example_db). l_id l = 11 \<longrightarrow> l_farmer_id l \<noteq> 2"
    by (simp add: example_defs)
  have o: "map l_price_per_unit
       (fish_listings (snd (updateFishListing (Some 1) 11 example_updates example_db)))
       = [100, 5000, 2000]"
    by (simp add: updateFishListing_def updated_row_def updated_row_violation_def
        or_else_def select_fish_listings_def fish_listings_select_def
        fish_listings_manage_def Let_def example_updates_def example_defs)
  have f: "map l_farmer_id (filter (\<lambda>l. l_id l = 11) (fish_listings example_db)) = [1]"
    by (simp add: example_defs)
  have c: "int4 (ld_quantity example_listing_data) = Inr 5
           \<and> numeric_10_2 (ld_price_per_unit example_listing_data) = Inr 3000"
    by (simp add: example_listing_data_def int4_def numeric_10_2_def)
  from foreign_listing_unchanged [OF h, of example_updates 1 example_listing_data] f o c
  show ?thesis by simp
qed




end
